theory Spec2Isabelle
  imports Complex_Main "HOL-Library.Multiset"
begin

section \<open>Crowdfunding backend: data model\<close>

text \<open>
  The backend (\<^verbatim>\<open>main.py\<close>, \<^verbatim>\<open>schemas.py\<close>) is a set of request handlers over a
  document store. Numbers that Python holds as \<^verbatim>\<open>float\<close> have the type \<open>pyfloat\<close>
  below, timestamps are integers, and identifiers assigned by the store are natural
  numbers.

  The store is schema-less and the handlers read documents with \<^verbatim>\<open>dict.get\<close>, so
  a field of a request body or of a stored document is absent, null (\<^verbatim>\<open>None\<close>) or
  a value. Values of another type than the schema's are not modelled.
\<close>

datatype 'a field = Absent | Null | Val 'a

text \<open>\<^verbatim>\<open>d.get(k)\<close>: the value, \<^verbatim>\<open>None\<close> when the key is absent.\<close>

fun get :: "'a field \<Rightarrow> 'a option" where
  "get Absent = None"
| "get Null = None"
| "get (Val v) = Some v"

text \<open>\<^verbatim>\<open>d.get(k, default)\<close>: the default only when the key is absent.\<close>

fun get_default :: "'a field \<Rightarrow> 'a \<Rightarrow> 'a option" where
  "get_default Absent dflt = Some dflt"
| "get_default Null dflt = None"
| "get_default (Val v) dflt = Some v"

text \<open>
  What a request can end with other than a normal response: the 422 that the framework
  answers to a body failing its schema, a \<^verbatim>\<open>HTTPException\<close> raised by a handler
  (status and detail), and the exceptions that leave a handler uncaught (a server
  error): the store adapter's failure, Python's \<^verbatim>\<open>TypeError\<close> and
  \<^verbatim>\<open>ZeroDivisionError\<close>, and a \<^verbatim>\<open>ValidationError\<close> of an output model.
\<close>

datatype error =
    RequestValidationError
  | HTTPException nat string
  | ConnectivityError
  | TypeError
  | ZeroDivisionError
  | ValidationError

definition and_then :: "error + 'a \<Rightarrow> ('a \<Rightarrow> error + 'b) \<Rightarrow> error + 'b" where
  "and_then m f = (case m of Inl e \<Rightarrow> Inl e | Inr x \<Rightarrow> f x)"

subsection \<open>Floating-point numbers\<close>

text \<open>
  A \<^verbatim>\<open>float\<close> is a finite number or NaN, which a JSON body can carry and the
  store can hold. Every comparison with NaN is false, so \<^verbatim>\<open>x <= 0\<close> is not the
  negation of \<^verbatim>\<open>x > 0\<close>, and NaN is what an operation on NaN gives.

  Finite values are taken as rationals and their arithmetic as exact: the rounding of
  binary floating point, overflow and the two infinities are not modelled. The
  properties of the summary below therefore state no value of a sum, a quotient or a
  rounding of arbitrary stored amounts; they state which fields are read, the integer
  fields, when the handler returns, and equalities between two runs of the handler. An
  integer found where a float is expected is identified with the float of the same
  value.
\<close>

datatype pyfloat = Finite rat | NaN

instantiation pyfloat :: "{zero, one, plus, uminus, times, ord}"
begin

definition zero_pyfloat :: pyfloat where
  "0 = Finite 0"

definition one_pyfloat :: pyfloat where
  "1 = Finite 1"

definition plus_pyfloat :: "pyfloat \<Rightarrow> pyfloat \<Rightarrow> pyfloat" where
  "x + y = (case (x, y) of (Finite a, Finite b) \<Rightarrow> Finite (a + b) | _ \<Rightarrow> NaN)"

definition uminus_pyfloat :: "pyfloat \<Rightarrow> pyfloat" where
  "- x = (case x of Finite a \<Rightarrow> Finite (- a) | NaN \<Rightarrow> NaN)"

definition times_pyfloat :: "pyfloat \<Rightarrow> pyfloat \<Rightarrow> pyfloat" where
  "x * y = (case (x, y) of (Finite a, Finite b) \<Rightarrow> Finite (a * b) | _ \<Rightarrow> NaN)"

definition less_eq_pyfloat :: "pyfloat \<Rightarrow> pyfloat \<Rightarrow> bool" where
  "x \<le> y = (case (x, y) of (Finite a, Finite b) \<Rightarrow> a \<le> b | _ \<Rightarrow> False)"

definition less_pyfloat :: "pyfloat \<Rightarrow> pyfloat \<Rightarrow> bool" where
  "x < y = (case (x, y) of (Finite a, Finite b) \<Rightarrow> a < b | _ \<Rightarrow> False)"

instance ..

end

text \<open>
  Addition is associative with 0 as its unit, which gives the type its numerals:
  \<open>1000\<close> is the float \<^verbatim>\<open>1000.0\<close>.
\<close>

instance pyfloat :: monoid_add
proof
  fix a b c :: pyfloat
  show "a + b + c = a + (b + c)"
    by (cases a; cases b; cases c) (simp_all add: plus_pyfloat_def)
  show "0 + a = a"
    by (cases a) (simp_all add: plus_pyfloat_def zero_pyfloat_def)
  show "a + 0 = a"
    by (cases a) (simp_all add: plus_pyfloat_def zero_pyfloat_def)
qed

instance pyfloat :: numeral ..

text \<open>\<^verbatim>\<open>x / y\<close>: dividing by zero raises, whatever is divided.\<close>

fun truediv :: "pyfloat \<Rightarrow> pyfloat \<Rightarrow> error + pyfloat" where
  "truediv (Finite a) (Finite b) = (if b = 0 then Inl ZeroDivisionError else Inr (Finite (a / b)))"
| "truediv NaN (Finite b) = (if b = 0 then Inl ZeroDivisionError else Inr NaN)"
| "truediv x NaN = Inr NaN"

subsection \<open>Schemas (\<^verbatim>\<open>schemas.py\<close>)\<close>

text \<open>A request body for \<^verbatim>\<open>POST /api/campaigns\<close>, before validation.\<close>

record campaign_payload =
  in_title :: "string field"
  in_description :: "string field"
  in_goal_amount :: "pyfloat field"
  in_max_supporters :: "int field"
  in_deadline :: "int field"

text \<open>The validated model \<^verbatim>\<open>Campaign\<close>.\<close>

record Campaign =
  title :: string
  description :: string
  goal_amount :: pyfloat
  max_supporters :: "int option"
  deadline :: "int option"

text \<open>A request body for \<^verbatim>\<open>POST /api/contributions\<close>, before validation.\<close>

record contribution_payload =
  in_name :: "string field"
  in_email :: "string field"
  in_amount :: "pyfloat field"
  in_message :: "string field"
  in_is_public :: "bool field"

text \<open>The validated model \<^verbatim>\<open>Contribution\<close>.\<close>

record Contribution =
  name :: string
  email :: string
  amount :: pyfloat
  message :: "string option"
  is_public :: bool

text \<open>
  \<^verbatim>\<open>Field(...)\<close> on a type that is not \<^verbatim>\<open>Optional\<close>: the field is required and
  null is not accepted. No constraint on the value itself.
\<close>

fun required :: "'a field \<Rightarrow> error + 'a" where
  "required Absent = Inl RequestValidationError"
| "required Null = Inl RequestValidationError"
| "required (Val v) = Inr v"

text \<open>\<^verbatim>\<open>Optional[T] = Field(default)\<close>: the default when absent, null accepted.\<close>

fun optional :: "'a option \<Rightarrow> 'a field \<Rightarrow> 'a option" where
  "optional dflt Absent = dflt"
| "optional dflt Null = None"
| "optional dflt (Val v) = Some v"

text \<open>\<^verbatim>\<open>T = Field(default)\<close> on a type that is not \<^verbatim>\<open>Optional\<close>.\<close>

fun defaulted :: "'a \<Rightarrow> 'a field \<Rightarrow> error + 'a" where
  "defaulted dflt Absent = Inr dflt"
| "defaulted dflt Null = Inl RequestValidationError"
| "defaulted dflt (Val v) = Inr v"

text \<open>The constraint \<^verbatim>\<open>gt=0\<close>.\<close>

definition gt0 :: "'a::{zero,ord} \<Rightarrow> error + 'a" where
  "gt0 v = (if 0 < v then Inr v else Inl RequestValidationError)"

text \<open>
  \<^verbatim>\<open>gt=0\<close> on an \<^verbatim>\<open>Optional\<close> field constrains a value and lets null pass.
\<close>

fun gt0_opt :: "int option \<Rightarrow> error + int option" where
  "gt0_opt None = Inr None"
| "gt0_opt (Some m) = (if 0 < m then Inr (Some m) else Inl RequestValidationError)"

definition validate_Campaign :: "campaign_payload \<Rightarrow> error + Campaign" where
  "validate_Campaign p =
     and_then (required (in_title p)) (\<lambda>t.
     and_then (required (in_description p)) (\<lambda>d.
     and_then (and_then (required (in_goal_amount p)) gt0) (\<lambda>g.
     and_then (gt0_opt (optional (Some 100) (in_max_supporters p))) (\<lambda>ms.
       Inr \<lparr>title = t, description = d, goal_amount = g, max_supporters = ms,
            deadline = optional None (in_deadline p)\<rparr>))))"

text \<open>
  \<^verbatim>\<open>EmailStr\<close> is checked by a library outside the repository: the syntax check is
  the parameter \<open>is_email\<close>. The library also normalises the address it accepts;
  here the address is kept as it was given.
\<close>

definition email_str :: "(string \<Rightarrow> bool) \<Rightarrow> string \<Rightarrow> error + string" where
  "email_str is_email s = (if is_email s then Inr s else Inl RequestValidationError)"

definition validate_Contribution ::
  "(string \<Rightarrow> bool) \<Rightarrow> contribution_payload \<Rightarrow> error + Contribution" where
  "validate_Contribution is_email p =
     and_then (required (in_name p)) (\<lambda>n.
     and_then (and_then (required (in_email p)) (email_str is_email)) (\<lambda>e.
     and_then (and_then (required (in_amount p)) gt0) (\<lambda>a.
     and_then (defaulted True (in_is_public p)) (\<lambda>pub.
       Inr \<lparr>name = n, email = e, amount = a,
            message = optional None (in_message p), is_public = pub\<rparr>))))"

subsection \<open>The document store\<close>

text \<open>Stored documents: the model's fields, \<^verbatim>\<open>_id\<close> and \<^verbatim>\<open>created_at\<close>.\<close>

record campaign_doc =
  cd_id :: nat
  cd_title :: "string field"
  cd_description :: "string field"
  cd_goal_amount :: "pyfloat field"
  cd_max_supporters :: "int field"
  cd_deadline :: "int field"
  cd_created_at :: "int field"

record contribution_doc =
  kd_id :: nat
  kd_name :: "string field"
  kd_email :: "string field"
  kd_amount :: "pyfloat field"
  kd_message :: "string field"
  kd_is_public :: "bool field"
  kd_created_at :: "int field"

record store =
  collection_names :: "string list"
  campaign :: "campaign_doc list"
  contribution :: "contribution_doc list"
  next_id :: nat

text \<open>
  The global \<^verbatim>\<open>db\<close>: \<^verbatim>\<open>None\<close>, or a handle. A handle may have a \<^verbatim>\<open>name\<close>
  attribute, and its server either answers from the store or fails every call with a
  message.
\<close>

datatype name_attr = NoName | Name string | NameRaises string

datatype server = Unreachable string | Reachable store

record database =
  name_of :: name_attr
  server_of :: server

type_synonym db = "database option"

fun null_or :: "'a option \<Rightarrow> 'a field" where
  "null_or None = Null"
| "null_or (Some v) = Val v"

definition campaign_document :: "nat \<Rightarrow> int \<Rightarrow> Campaign \<Rightarrow> campaign_doc" where
  "campaign_document i now c =
     \<lparr>cd_id = i, cd_title = Val (title c), cd_description = Val (description c),
      cd_goal_amount = Val (goal_amount c), cd_max_supporters = null_or (max_supporters c),
      cd_deadline = null_or (deadline c), cd_created_at = Val now\<rparr>"

definition contribution_document :: "nat \<Rightarrow> int \<Rightarrow> Contribution \<Rightarrow> contribution_doc" where
  "contribution_document i now c =
     \<lparr>kd_id = i, kd_name = Val (name c), kd_email = Val (email c),
      kd_amount = Val (amount c), kd_message = null_or (message c),
      kd_is_public = Val (is_public c), kd_created_at = Val now\<rparr>"

text \<open>
  Modelled from the spec: \<^verbatim>\<open>database.py\<close> (\<^verbatim>\<open>create_document\<close>,
  \<^verbatim>\<open>get_documents\<close>, \<^verbatim>\<open>db\<close>) is not among the sources. Section 4.2:
  \<^verbatim>\<open>list(collection, filter)\<close> with the empty filter returns all records of the
  collection; if the store is unreachable or uninitialized the operation fails with a
  connectivity error.
\<close>

definition get_documents :: "(store \<Rightarrow> 'd list) \<Rightarrow> db \<Rightarrow> error + 'd list" where
  "get_documents coll d =
     (case d of
        None \<Rightarrow> Inl ConnectivityError
      | Some h \<Rightarrow>
          (case server_of h of
             Unreachable msg \<Rightarrow> Inl ConnectivityError
           | Reachable s \<Rightarrow> Inr (coll s)))"

text \<open>
  Modelled from the spec: \<^verbatim>\<open>create(collection, record) -> id\<close> inserts the record
  and returns its newly assigned identifier, with \<^verbatim>\<open>created_at\<close> set at creation
  (sections 3 and 4.2); no uniqueness or dedup logic; connectivity failure as above.
  The record goes after the stored ones, the time of the call is the argument
  \<open>now\<close>, and the first insert into a collection makes its name listed.
\<close>

definition create_campaign_document :: "int \<Rightarrow> db \<Rightarrow> Campaign \<Rightarrow> (error + nat) \<times> db" where
  "create_campaign_document now d c =
     (case d of
        None \<Rightarrow> (Inl ConnectivityError, d)
      | Some h \<Rightarrow>
          (case server_of h of
             Unreachable msg \<Rightarrow> (Inl ConnectivityError, d)
           | Reachable s \<Rightarrow>
               (Inr (next_id s),
                Some (h\<lparr>server_of := Reachable
                  (s\<lparr>campaign := campaign s @ [campaign_document (next_id s) now c],
                     collection_names := List.insert ''campaign'' (collection_names s),
                     next_id := Suc (next_id s)\<rparr>)\<rparr>))))"

definition create_contribution_document ::
  "int \<Rightarrow> db \<Rightarrow> Contribution \<Rightarrow> (error + nat) \<times> db" where
  "create_contribution_document now d c =
     (case d of
        None \<Rightarrow> (Inl ConnectivityError, d)
      | Some h \<Rightarrow>
          (case server_of h of
             Unreachable msg \<Rightarrow> (Inl ConnectivityError, d)
           | Reachable s \<Rightarrow>
               (Inr (next_id s),
                Some (h\<lparr>server_of := Reachable
                  (s\<lparr>contribution := contribution s @ [contribution_document (next_id s) now c],
                     collection_names := List.insert ''contribution'' (collection_names s),
                     next_id := Suc (next_id s)\<rparr>)\<rparr>))))"

section \<open>Handlers (\<^verbatim>\<open>main.py\<close>)\<close>

subsection \<open>Creating a campaign and a contribution\<close>

text \<open>
  \<^verbatim>\<open>create_campaign(payload)\<close>: the handler receives the validated model and
  returns the store as it leaves it.
\<close>

definition create_campaign :: "int \<Rightarrow> db \<Rightarrow> Campaign \<Rightarrow> (error + nat) \<times> db" where
  "create_campaign now d payload =
     (case get_documents campaign d of
        Inl e \<Rightarrow> (Inl e, d)
      | Inr existing \<Rightarrow>
          if existing \<noteq> [] then (Inl (HTTPException 400 ''A campaign already exists''), d)
          else create_campaign_document now d payload)"

text \<open>
  \<^verbatim>\<open>POST /api/campaigns\<close>: the framework validates the body against
  \<^verbatim>\<open>CreateCampaignRequest\<close> (\<^verbatim>\<open>Campaign\<close> with nothing added) and calls the handler
  only with a valid one.
\<close>

definition post_campaigns :: "int \<Rightarrow> db \<Rightarrow> campaign_payload \<Rightarrow> (error + nat) \<times> db" where
  "post_campaigns now d body =
     (case validate_Campaign body of
        Inl e \<Rightarrow> (Inl e, d)
      | Inr payload \<Rightarrow> create_campaign now d payload)"

definition add_contribution :: "int \<Rightarrow> db \<Rightarrow> Contribution \<Rightarrow> (error + nat) \<times> db" where
  "add_contribution now d payload =
     (let amount = amount payload in
      if amount \<le> 0 then (Inl (HTTPException 400 ''Amount must be positive''), d)
      else create_contribution_document now d payload)"

definition post_contributions ::
  "(string \<Rightarrow> bool) \<Rightarrow> int \<Rightarrow> db \<Rightarrow> contribution_payload \<Rightarrow> (error + nat) \<times> db" where
  "post_contributions is_email now d body =
     (case validate_Contribution is_email body of
        Inl e \<Rightarrow> (Inl e, d)
      | Inr payload \<Rightarrow> add_contribution now d payload)"

subsection \<open>Listing campaigns and contributions\<close>

record CampaignOut =
  co_id :: nat
  co_title :: string
  co_description :: string
  co_goal_amount :: pyfloat
  co_max_supporters :: "int option"
  co_deadline :: "int option"
  co_created_at :: int

record ContributionOut =
  ko_id :: nat
  ko_name :: string
  ko_email :: string
  ko_amount :: pyfloat
  ko_message :: "string option"
  ko_is_public :: bool
  ko_created_at :: int

text \<open>\<^verbatim>\<open>float(v)\<close> on a number or \<^verbatim>\<open>None\<close>: \<^verbatim>\<open>float(None)\<close> raises.\<close>

fun py_float :: "pyfloat option \<Rightarrow> error + pyfloat" where
  "py_float None = Inl TypeError"
| "py_float (Some r) = Inr r"

text \<open>
  The sort key \<^verbatim>\<open>x.get("created_at")\<close> under \<^verbatim>\<open>reverse=True\<close>, as a key of an
  ascending sort. A key \<^verbatim>\<open>None\<close> is only ever used on a list of at most one item,
  where its value plays no role.
\<close>

definition newest_key :: "int field \<Rightarrow> int" where
  "newest_key c = (case get c of None \<Rightarrow> 0 | Some t \<Rightarrow> - t)"

text \<open>
  \<^verbatim>\<open>items.sort(key=lambda x: x.get("created_at"), reverse=True)\<close>: a stable sort,
  newest first. With two items or more every key is compared with another one, and
  comparing \<^verbatim>\<open>None\<close> raises \<^verbatim>\<open>TypeError\<close>; a list of one item or none is left
  as it is, without any comparison.
\<close>

definition sort_newest_first :: "('d \<Rightarrow> int field) \<Rightarrow> 'd list \<Rightarrow> error + 'd list" where
  "sort_newest_first created items =
     (if 2 \<le> length items \<and> (\<exists>x \<in> set items. get (created x) = None) then Inl TypeError
      else Inr (sort_key (\<lambda>x. newest_key (created x)) items))"

text \<open>The slice \<^verbatim>\<open>items[:limit]\<close>: a negative bound counts from the end.\<close>

definition slice_to :: "'a list \<Rightarrow> int \<Rightarrow> 'a list" where
  "slice_to items limit =
     (if 0 \<le> limit then take (nat limit) items
      else take (nat (int (length items) + limit)) items)"

text \<open>
  The loop \<^verbatim>\<open>for it in items: result.append(...)\<close>, stopped by the first item
  whose output model cannot be built.
\<close>

fun build_result :: "('d \<Rightarrow> error + 'o) \<Rightarrow> 'd list \<Rightarrow> error + 'o list" where
  "build_result out [] = Inr []"
| "build_result out (it # items) =
     and_then (out it) (\<lambda>v. and_then (build_result out items) (\<lambda>vs. Inr (v # vs)))"

text \<open>
  \<^verbatim>\<open>CampaignOut(...)\<close>: the arguments are evaluated first, where only \<^verbatim>\<open>float\<close>
  can raise; then the model requires a title, a description and a creation time.
\<close>

definition campaign_out :: "campaign_doc \<Rightarrow> error + CampaignOut" where
  "campaign_out it =
     and_then (py_float (get (cd_goal_amount it))) (\<lambda>g.
       case (get (cd_title it), get (cd_description it), get (cd_created_at it)) of
         (Some t, Some d, Some c) \<Rightarrow>
           Inr \<lparr>co_id = cd_id it, co_title = t, co_description = d, co_goal_amount = g,
                co_max_supporters = get (cd_max_supporters it),
                co_deadline = get (cd_deadline it), co_created_at = c\<rparr>
       | _ \<Rightarrow> Inl ValidationError)"

definition list_campaigns :: "db \<Rightarrow> error + CampaignOut list" where
  "list_campaigns d =
     and_then (get_documents campaign d) (\<lambda>items.
     and_then (sort_newest_first cd_created_at items) (\<lambda>items.
       build_result campaign_out items))"

text \<open>\<^verbatim>\<open>bool(it.get("is_public", True))\<close>: \<^verbatim>\<open>bool(None)\<close> is false.\<close>

definition py_bool :: "bool option \<Rightarrow> bool" where
  "py_bool v = (case v of None \<Rightarrow> False | Some b \<Rightarrow> b)"

definition contribution_out :: "(string \<Rightarrow> bool) \<Rightarrow> contribution_doc \<Rightarrow> error + ContributionOut" where
  "contribution_out is_email it =
     and_then (py_float (get (kd_amount it))) (\<lambda>a.
       case (get (kd_name it), get (kd_email it), get (kd_created_at it)) of
         (Some n, Some e, Some c) \<Rightarrow>
           if is_email e then
             Inr \<lparr>ko_id = kd_id it, ko_name = n, ko_email = e, ko_amount = a,
                  ko_message = get (kd_message it),
                  ko_is_public = py_bool (get_default (kd_is_public it) True),
                  ko_created_at = c\<rparr>
           else Inl ValidationError
       | _ \<Rightarrow> Inl ValidationError)"

definition list_contributions :: "(string \<Rightarrow> bool) \<Rightarrow> db \<Rightarrow> int \<Rightarrow> error + ContributionOut list" where
  "list_contributions is_email d limit =
     and_then (get_documents contribution d) (\<lambda>items.
     and_then (sort_newest_first kd_created_at items) (\<lambda>items.
       build_result (contribution_out is_email) (slice_to items limit)))"

text \<open>\<^verbatim>\<open>GET /api/contributions\<close>: the query parameter \<^verbatim>\<open>limit: int = 200\<close>.\<close>

definition get_contributions ::
  "(string \<Rightarrow> bool) \<Rightarrow> db \<Rightarrow> int option \<Rightarrow> error + ContributionOut list" where
  "get_contributions is_email d limit =
     list_contributions is_email d (case limit of None \<Rightarrow> 200 | Some l \<Rightarrow> l)"

text \<open>
  Documents as the creating handlers write them: from such a document the output model
  can be built. The text, amount and time fields hold values (a contribution's email
  one that passes the syntax check); the optional ones are free.
\<close>

definition well_formed_campaign :: "campaign_doc \<Rightarrow> bool" where
  "well_formed_campaign it =
     (case (cd_title it, cd_description it, cd_goal_amount it, cd_created_at it) of
        (Val t, Val d, Val g, Val c) \<Rightarrow> True
      | _ \<Rightarrow> False)"

definition well_formed_contribution :: "(string \<Rightarrow> bool) \<Rightarrow> contribution_doc \<Rightarrow> bool" where
  "well_formed_contribution is_email it =
     (case (kd_name it, kd_email it, kd_amount it, kd_created_at it) of
        (Val n, Val e, Val a, Val c) \<Rightarrow> is_email e
      | _ \<Rightarrow> False)"

subsection \<open>Summary\<close>

record summary =
  goal :: pyfloat
  raised :: pyfloat
  backers :: nat
  percent :: pyfloat
  remaining_supporters :: int

text \<open>
  \<^verbatim>\<open>round(x, 2)\<close>: the nearest multiple of 1/100, a tie going to the even one; NaN
  stays NaN.
\<close>

fun round2 :: "pyfloat \<Rightarrow> pyfloat" where
  "round2 (Finite x) =
     (let y = x * 100; f = \<lfloor>y\<rfloor>; r = y - of_int f
      in Finite (of_int (if r < 1 / 2 then f else if 1 / 2 < r then f + 1
                         else if even f then f else f + 1) / 100))"
| "round2 NaN = NaN"

text \<open>
  \<^verbatim>\<open>sum(float(x.get("amount", 0)) for x in contributions)\<close>, from the left, stopped
  by the first amount that \<^verbatim>\<open>float\<close> refuses.
\<close>

fun sum_amounts :: "pyfloat \<Rightarrow> contribution_doc list \<Rightarrow> error + pyfloat" where
  "sum_amounts acc [] = Inr acc"
| "sum_amounts acc (x # xs) =
     and_then (py_float (get_default (kd_amount x) 0)) (\<lambda>a. sum_amounts (acc + a) xs)"

text \<open>
  The expression \<^verbatim>\<open>round((total / goal) * 100, 2) if goal > 0 else 0\<close>.
\<close>

definition percent_of :: "pyfloat \<Rightarrow> pyfloat \<Rightarrow> error + pyfloat" where
  "percent_of t g =
     (if 0 < g then and_then (truediv t g) (\<lambda>q. Inr (round2 (q * 100))) else Inr 0)"

text \<open>
  \<^verbatim>\<open>get_summary()\<close>, up to the dictionary that the handler returns. The goal and
  the maximum of supporters come from the first campaign document, read with a default
  for a field that is absent; with no campaign they are \<^verbatim>\<open>100000.0\<close> and
  \<^verbatim>\<open>100\<close>. The last step, \<^verbatim>\<open>max(0, max_supporters - count)\<close>, raises when the
  maximum is \<^verbatim>\<open>None\<close>.
\<close>

definition get_summary :: "db \<Rightarrow> error + summary" where
  "get_summary d =
     and_then (get_documents campaign d) (\<lambda>campaigns.
     and_then
       (case campaigns of
          [] \<Rightarrow> Inr (100000, Some 100)
        | c # _ \<Rightarrow>
            and_then (py_float (get_default (cd_goal_amount c) 100000)) (\<lambda>g.
              Inr (g, get_default (cd_max_supporters c) 100)))
       (\<lambda>(goal, max_supporters).
     and_then (get_documents contribution d) (\<lambda>contributions.
     and_then (sum_amounts 0 contributions) (\<lambda>total.
       let count = length contributions in
       and_then (percent_of total goal) (\<lambda>percent.
         case max_supporters of
           None \<Rightarrow> Inl TypeError
         | Some m \<Rightarrow>
             Inr \<lparr>goal = goal, raised = total, backers = count, percent = percent,
                  remaining_supporters = max 0 (m - int count)\<rparr>)))))"

subsection \<open>Diagnostics\<close>

text \<open>
  The status texts of \<^verbatim>\<open>GET /test\<close> are kept as constructors; those built from an
  exception carry the first 50 characters of its message.
\<close>

datatype database_status =
    NotAvailable
  | Available
  | ConnectedAndWorking
  | ConnectedButError string
  | NotInitialized
  | ErrorStatus string

datatype url_status = UrlSet | UrlNotSet

datatype name_status = DatabaseName string | ConnectedMark

record diagnostics =
  backend_running :: bool
  database :: database_status
  database_url :: "url_status option"
  database_name :: "name_status option"
  connection_status :: string
  collections :: "string list"

text \<open>\<^verbatim>\<open>db.list_collection_names()\<close>: the names, or an exception with its message.\<close>

definition list_collection_names :: "database \<Rightarrow> string + string list" where
  "list_collection_names h =
     (case server_of h of Unreachable msg \<Rightarrow> Inl msg | Reachable s \<Rightarrow> Inr (collection_names s))"

text \<open>\<^verbatim>\<open>db.name if hasattr(db, 'name') else ...\<close>: reading the attribute may raise.\<close>

fun database_name_of :: "name_attr \<Rightarrow> string + name_status" where
  "database_name_of (Name n) = Inr (DatabaseName n)"
| "database_name_of NoName = Inr ConnectedMark"
| "database_name_of (NameRaises msg) = Inl msg"

text \<open>
  \<^verbatim>\<open>test_database()\<close>, with the environment variable \<^verbatim>\<open>DATABASE_URL\<close> read as
  set or not. The response is updated in place, so what was written before an exception
  stays; the inner handler catches the listing's failure and the outer one anything
  else.
\<close>

definition test_database :: "bool \<Rightarrow> db \<Rightarrow> error + diagnostics" where
  "test_database url_set d =
     (let response = \<lparr>backend_running = True, database = NotAvailable, database_url = None,
                      database_name = None, connection_status = ''Not Connected'',
                      collections = []\<rparr>
      in case d of
           None \<Rightarrow> Inr (response\<lparr>database := NotInitialized\<rparr>)
         | Some h \<Rightarrow>
             (let response = response\<lparr>database := Available,
                    database_url := Some (if url_set then UrlSet else UrlNotSet)\<rparr>
              in case database_name_of (name_of h) of
                   Inl msg \<Rightarrow> Inr (response\<lparr>database := ErrorStatus (take 50 msg)\<rparr>)
                 | Inr n \<Rightarrow>
                     (let response = response\<lparr>database_name := Some n,
                            connection_status := ''Connected''\<rparr>
                      in case list_collection_names h of
                           Inr names \<Rightarrow>
                             Inr (response\<lparr>collections := take 10 names,
                                    database := ConnectedAndWorking\<rparr>)
                         | Inl msg \<Rightarrow>
                             Inr (response\<lparr>database := ConnectedButError (take 50 msg)\<rparr>))))"

section \<open>Example data\<close>

text \<open>Concrete stores, bodies and documents on which the theorems below are run.\<close>

definition example_email :: "string \<Rightarrow> bool" where
  "example_email s = (CHR ''@'' \<in> set s)"

definition fresh_store :: store where
  "fresh_store = \<lparr>collection_names = [], campaign = [], contribution = [], next_id = 0\<rparr>"

definition db_with :: "store \<Rightarrow> db" where
  "db_with s = Some \<lparr>name_of = Name ''crowd'', server_of = Reachable s\<rparr>"

definition roof_body :: campaign_payload where
  "roof_body = \<lparr>in_title = Val ''Roof'', in_description = Val ''A new roof'',
     in_goal_amount = Val 1000, in_max_supporters = Val 10, in_deadline = Absent\<rparr>"

definition roof :: Campaign where
  "roof = \<lparr>title = ''Roof'', description = ''A new roof'', goal_amount = 1000,
     max_supporters = Some 10, deadline = None\<rparr>"

definition blank_campaign_body :: campaign_payload where
  "blank_campaign_body = \<lparr>in_title = Val [], in_description = Val [],
     in_goal_amount = Val 1000, in_max_supporters = Absent, in_deadline = Absent\<rparr>"

definition ann_body :: "pyfloat \<Rightarrow> contribution_payload" where
  "ann_body a = \<lparr>in_name = Val ''Ann'', in_email = Val ''ann@example.org'',
     in_amount = Val a, in_message = Absent, in_is_public = Absent\<rparr>"

definition ann :: "pyfloat \<Rightarrow> Contribution" where
  "ann a = \<lparr>name = ''Ann'', email = ''ann@example.org'', amount = a, message = None,
     is_public = True\<rparr>"

definition blank_contribution_body :: contribution_payload where
  "blank_contribution_body = \<lparr>in_name = Val [], in_email = Val ''ann@example.org'',
     in_amount = Val 5, in_message = Absent, in_is_public = Absent\<rparr>"

definition campaign_of :: "pyfloat \<Rightarrow> int \<Rightarrow> campaign_doc" where
  "campaign_of g m = \<lparr>cd_id = 0, cd_title = Val ''Roof'', cd_description = Val ''A new roof'',
     cd_goal_amount = Val g, cd_max_supporters = Val m, cd_deadline = Null,
     cd_created_at = Val 1\<rparr>"

definition gift :: "nat \<Rightarrow> pyfloat field \<Rightarrow> int \<Rightarrow> contribution_doc" where
  "gift i a t = \<lparr>kd_id = i, kd_name = Val ''Ann'', kd_email = Val ''ann@example.org'',
     kd_amount = a, kd_message = Null, kd_is_public = Val True, kd_created_at = Val t\<rparr>"

definition store_of :: "campaign_doc list \<Rightarrow> contribution_doc list \<Rightarrow> store" where
  "store_of cs ks = \<lparr>collection_names = [''campaign'', ''contribution''], campaign = cs,
     contribution = ks, next_id = 100\<rparr>"

text \<open>Five contributions, stored in an order that is not the order of their times.\<close>

definition five_gifts :: "contribution_doc list" where
  "five_gifts = [gift 1 (Val 10) 30, gift 2 (Val 20) 10, gift 3 (Val 30) 50,
                 gift 4 (Val 40) 20, gift 5 (Val 50) 40]"

section \<open>Properties\<close>

subsection \<open>Auxiliary facts\<close>

lemma and_then_simps [simp]:
  "and_then (Inl e) f = Inl e"
  "and_then (Inr x) f = f x"
  by (simp_all add: and_then_def)

lemma numeral_pyfloat: "numeral k = Finite (numeral k)"
  by (induction k)
     (simp_all only: numeral.simps one_pyfloat_def plus_pyfloat_def prod.case pyfloat.case)

lemma pyfloat_arith:
  "Finite a + Finite b = Finite (a + b)"
  "Finite a * Finite b = Finite (a * b)"
  "- Finite a = Finite (- a)"
  "NaN + x = NaN" "x + NaN = NaN"
  "NaN * x = NaN" "x * NaN = NaN"
  by (simp_all add: plus_pyfloat_def times_pyfloat_def uminus_pyfloat_def split: pyfloat.splits)

lemma pyfloat_compare:
  "Finite a \<le> Finite b \<longleftrightarrow> a \<le> b"
  "Finite a < Finite b \<longleftrightarrow> a < b"
  "\<not> NaN \<le> x" "\<not> x \<le> NaN" "\<not> NaN < x" "\<not> x < NaN"
  by (simp_all add: less_eq_pyfloat_def less_pyfloat_def split: pyfloat.splits)

lemmas pyfloat_simps =
  numeral_pyfloat zero_pyfloat_def one_pyfloat_def pyfloat_arith pyfloat_compare

lemma not_positive: "(\<not> 0 < a) = (a \<le> 0 \<or> a = NaN)" for a :: pyfloat
  by (cases a) (auto simp: pyfloat_simps)

lemma get_documents_reachable:
  "server_of h = Reachable s \<Longrightarrow> get_documents coll (Some h) = Inr (coll s)"
  by (simp add: get_documents_def)

lemma create_campaign_document_error:
  "create_campaign_document now d c = (Inl e, d') \<Longrightarrow> d' = d \<and> e = ConnectivityError"
  by (auto simp: create_campaign_document_def split: option.splits server.splits)

lemma create_contribution_document_error:
  "create_contribution_document now d c = (Inl e, d') \<Longrightarrow> d' = d \<and> e = ConnectivityError"
  by (auto simp: create_contribution_document_def split: option.splits server.splits)

lemma create_campaign_error:
  "create_campaign now d c = (Inl e, d') \<Longrightarrow> d' = d"
  by (auto simp: create_campaign_def split: sum.splits if_splits
      dest: create_campaign_document_error)

lemma add_contribution_error:
  "add_contribution now d c = (Inl e, d') \<Longrightarrow> d' = d"
  by (auto simp: add_contribution_def Let_def split: if_splits
      dest: create_contribution_document_error)

lemma create_campaign_exists:
  "server_of h = Reachable s \<Longrightarrow> campaign s \<noteq> [] \<Longrightarrow>
   create_campaign now (Some h) c = (Inl (HTTPException 400 ''A campaign already exists''), Some h)"
  by (simp add: create_campaign_def get_documents_reachable)

lemma create_campaign_none:
  "server_of h = Reachable s \<Longrightarrow> campaign s = [] \<Longrightarrow>
   create_campaign now (Some h) c =
     (Inr (next_id s),
      Some (h\<lparr>server_of := Reachable
        (s\<lparr>campaign := [campaign_document (next_id s) now c],
           collection_names := List.insert ''campaign'' (collection_names s),
           next_id := Suc (next_id s)\<rparr>)\<rparr>))"
  by (simp add: create_campaign_def get_documents_reachable create_campaign_document_def)

lemma validate_Campaign_goal:
  "validate_Campaign body = Inr c \<Longrightarrow> 0 < goal_amount c"
  by (cases "in_title body"; cases "in_description body"; cases "in_goal_amount body";
      cases "optional (Some 100) (in_max_supporters body)")
     (auto simp: validate_Campaign_def gt0_def split: if_splits)

lemma validate_roof: "validate_Campaign roof_body = Inr roof"
  by (simp add: validate_Campaign_def roof_body_def roof_def gt0_def pyfloat_simps)

lemma validate_ann_body_0: "validate_Contribution example_email (ann_body 0) = Inl RequestValidationError"
  by (simp add: validate_Contribution_def ann_body_def gt0_def email_str_def example_email_def
      pyfloat_simps)

subsection \<open>Creating records\<close>

text \<open>
  C1. On a reachable store, \<^verbatim>\<open>create_campaign\<close> succeeds, returning the new record's
  id, when the campaign collection is empty, and fails with the 400
  ``A campaign already exists'' when it holds at least one document. So a valid payload
  (its goal amount is positive) is created once on an empty collection, the record is
  then the collection's only one, and every later attempt, with any body, fails and
  leaves the store as the first creation left it.
\<close>

theorem single_campaign:
  assumes "server_of h = Reachable s"
  shows "(campaign s = [] \<longrightarrow>
            fst (create_campaign now (Some h) c) = Inr (next_id s) \<and>
            get_documents campaign (snd (create_campaign now (Some h) c)) =
              Inr [campaign_document (next_id s) now c] \<and>
            (\<forall>now' c'. create_campaign now' (snd (create_campaign now (Some h) c)) c' =
               (Inl (HTTPException 400 ''A campaign already exists''),
                snd (create_campaign now (Some h) c)))) \<and>
         (campaign s \<noteq> [] \<longrightarrow>
            create_campaign now (Some h) c =
              (Inl (HTTPException 400 ''A campaign already exists''), Some h)) \<and>
         (campaign s = [] \<longrightarrow> validate_Campaign body = Inr c \<longrightarrow>
            0 < goal_amount c \<and>
            post_campaigns now (Some h) body = create_campaign now (Some h) c \<and>
            (\<forall>now' body'. \<exists>e. post_campaigns now' (snd (post_campaigns now (Some h) body)) body' =
               (Inl e, snd (post_campaigns now (Some h) body))))"
proof (intro conjI impI)
  assume empty: "campaign s = []"
  let ?d = "snd (create_campaign now (Some h) c)"
  let ?h = "h\<lparr>server_of := Reachable
        (s\<lparr>campaign := [campaign_document (next_id s) now c],
           collection_names := List.insert ''campaign'' (collection_names s),
           next_id := Suc (next_id s)\<rparr>)\<rparr>"
  have d: "?d = Some ?h"
    using create_campaign_none [OF assms empty] by simp
  show "fst (create_campaign now (Some h) c) = Inr (next_id s)"
    using create_campaign_none [OF assms empty] by simp
  show "get_documents campaign ?d = Inr [campaign_document (next_id s) now c]"
    unfolding d by (simp add: get_documents_def)
  show again: "\<forall>now' c'. create_campaign now' ?d c' =
      (Inl (HTTPException 400 ''A campaign already exists''), ?d)"
    unfolding d by (simp add: create_campaign_def get_documents_def)
  {
    assume valid: "validate_Campaign body = Inr c"
    show "0 < goal_amount c"
      using valid by (rule validate_Campaign_goal)
    show post: "post_campaigns now (Some h) body = create_campaign now (Some h) c"
      using valid by (simp add: post_campaigns_def)
    show "\<forall>now' body'. \<exists>e. post_campaigns now' (snd (post_campaigns now (Some h) body)) body' =
               (Inl e, snd (post_campaigns now (Some h) body))"
    proof (intro allI)
      fix now' body'
      show "\<exists>e. post_campaigns now' (snd (post_campaigns now (Some h) body)) body' =
               (Inl e, snd (post_campaigns now (Some h) body))"
        unfolding post using again
        by (cases "validate_Campaign body'") (simp_all add: post_campaigns_def)
    qed
  }
next
  assume "campaign s \<noteq> []"
  then show "create_campaign now (Some h) c =
      (Inl (HTTPException 400 ''A campaign already exists''), Some h)"
    using assms by (simp add: create_campaign_exists)
qed

theorem single_campaign_witness:
  "fst (post_campaigns 5 (db_with fresh_store) roof_body) = Inr 0 \<and>
   (\<exists>e. post_campaigns 6 (snd (post_campaigns 5 (db_with fresh_store) roof_body)) blank_campaign_body =
      (Inl e, snd (post_campaigns 5 (db_with fresh_store) roof_body)))"
proof -
  let ?h = "\<lparr>name_of = Name ''crowd'', server_of = Reachable fresh_store\<rparr>"
  have reach: "server_of ?h = Reachable fresh_store" by simp
  have empty: "campaign fresh_store = []" by (simp add: fresh_store_def)
  have nid: "next_id fresh_store = 0" by (simp add: fresh_store_def)
  from single_campaign [OF reach, of 5 roof roof_body] empty validate_roof
  have a: "fst (create_campaign 5 (Some ?h) roof) = Inr (next_id fresh_store)"
    and b: "post_campaigns 5 (Some ?h) roof_body = create_campaign 5 (Some ?h) roof"
    and c: "\<forall>now' body'. \<exists>e. post_campaigns now' (snd (post_campaigns 5 (Some ?h) roof_body)) body' =
               (Inl e, snd (post_campaigns 5 (Some ?h) roof_body))"
    by blast+
  from c have "\<exists>e. post_campaigns 6 (snd (post_campaigns 5 (Some ?h) roof_body)) blank_campaign_body =
               (Inl e, snd (post_campaigns 5 (Some ?h) roof_body))"
    by blast
  with a b nid show ?thesis
    by (simp add: db_with_def)
qed

text \<open>
  C7. Whenever creating a campaign or a contribution ends in an error (the 422 of an
  invalid body, the 400 of a duplicate campaign or of a non-positive amount, or the
  store's own failure), the store is the one the request found: both at the endpoint,
  validation included, and at the handler.
\<close>

theorem rejected_leaves_store:
  "(isl (fst (post_campaigns now d body)) \<longrightarrow> snd (post_campaigns now d body) = d) \<and>
   (isl (fst (create_campaign now d c)) \<longrightarrow> snd (create_campaign now d c) = d) \<and>
   (isl (fst (post_contributions is_email now d kbody)) \<longrightarrow>
      snd (post_contributions is_email now d kbody) = d) \<and>
   (isl (fst (add_contribution now d k)) \<longrightarrow> snd (add_contribution now d k) = d)"
proof -
  have campaign: "snd (create_campaign t d x) = d" if "isl (fst (create_campaign t d x))" for t x
  proof -
    obtain r d' where eq: "create_campaign t d x = (r, d')" by (cases "create_campaign t d x")
    with that obtain e where "r = Inl e" by (cases r) simp_all
    with eq show ?thesis using create_campaign_error by simp
  qed
  have contribution: "snd (add_contribution t d x) = d" if "isl (fst (add_contribution t d x))" for t x
  proof -
    obtain r d' where eq: "add_contribution t d x = (r, d')" by (cases "add_contribution t d x")
    with that obtain e where "r = Inl e" by (cases r) simp_all
    with eq show ?thesis using add_contribution_error by simp
  qed
  have "snd (post_campaigns now d body) = d" if "isl (fst (post_campaigns now d body))"
    using that campaign by (cases "validate_Campaign body") (simp_all add: post_campaigns_def)
  moreover have "snd (post_contributions is_email now d kbody) = d"
    if "isl (fst (post_contributions is_email now d kbody))"
    using that contribution
    by (cases "validate_Contribution is_email kbody") (simp_all add: post_contributions_def)
  ultimately show ?thesis
    using campaign contribution by blast
qed

theorem rejected_leaves_store_witness:
  "snd (post_campaigns 6 (db_with (store_of [campaign_of 1000 10] [])) roof_body) =
     db_with (store_of [campaign_of 1000 10] []) \<and>
   snd (create_campaign 6 (db_with (store_of [campaign_of 1000 10] [])) roof) =
     db_with (store_of [campaign_of 1000 10] []) \<and>
   snd (post_contributions example_email 6 (db_with (store_of [campaign_of 1000 10] [])) (ann_body 0)) =
     db_with (store_of [campaign_of 1000 10] []) \<and>
   snd (add_contribution 6 (db_with (store_of [campaign_of 1000 10] [])) (ann 0)) =
     db_with (store_of [campaign_of 1000 10] [])"
proof -
  let ?d = "db_with (store_of [campaign_of 1000 10] [])"
  have 1: "isl (fst (create_campaign 6 ?d roof))"
    by (simp add: create_campaign_def get_documents_def db_with_def store_of_def)
  have 2: "isl (fst (post_campaigns 6 ?d roof_body))"
    using 1 by (simp add: post_campaigns_def validate_roof)
  have 3: "isl (fst (post_contributions example_email 6 ?d (ann_body 0)))"
    by (simp add: post_contributions_def validate_ann_body_0)
  have 4: "isl (fst (add_contribution 6 ?d (ann 0)))"
    by (simp add: add_contribution_def ann_def pyfloat_simps)
  show ?thesis
    using rejected_leaves_store [of 6 ?d roof_body roof example_email "ann_body 0" "ann 0"] 1 2 3 4
    by blast
qed

subsection \<open>Validation\<close>

lemma isl_and_then: "isl (and_then m f) = (isl m \<or> (\<exists>x. m = Inr x \<and> isl (f x)))"
  by (cases m) simp_all

text \<open>
  C3, as stated, fails: a campaign body whose title and description are the empty
  string is accepted and stored, and so is a contribution body whose name is the empty
  string. \<^verbatim>\<open>Field(...)\<close> makes a field required and puts no bound on its length.
\<close>

theorem blank_text_accepted:
  "in_title blank_campaign_body = Val [] \<and> in_description blank_campaign_body = Val [] \<and>
   fst (post_campaigns 5 (db_with fresh_store) blank_campaign_body) = Inr 0 \<and>
   in_name blank_contribution_body = Val [] \<and>
   fst (post_contributions example_email 5 (db_with fresh_store) blank_contribution_body) = Inr 0"
  by (simp add: blank_campaign_body_def blank_contribution_body_def post_campaigns_def
      post_contributions_def validate_Campaign_def validate_Contribution_def gt0_def
      email_str_def example_email_def create_campaign_def add_contribution_def
      get_documents_def create_campaign_document_def create_contribution_document_def
      db_with_def fresh_store_def pyfloat_simps)

text \<open>
  C3, amended. Creating a campaign is rejected with a validation error, the store
  untouched, whenever the title or the description is absent or null, and creating a
  contribution whenever the name is absent or null. Beyond that the text plays no role:
  a body is accepted with some title, description or name exactly if it is accepted
  with the empty one.
\<close>

theorem text_fields_required:
  "(in_title body \<in> {Absent, Null} \<or> in_description body \<in> {Absent, Null} \<longrightarrow>
      post_campaigns now d body = (Inl RequestValidationError, d)) \<and>
   (in_name kbody \<in> {Absent, Null} \<longrightarrow>
      post_contributions is_email now d kbody = (Inl RequestValidationError, d)) \<and>
   isl (validate_Campaign (body\<lparr>in_title := Val t, in_description := Val u\<rparr>)) =
     isl (validate_Campaign (body\<lparr>in_title := Val [], in_description := Val []\<rparr>)) \<and>
   isl (validate_Contribution is_email (kbody\<lparr>in_name := Val n\<rparr>)) =
     isl (validate_Contribution is_email (kbody\<lparr>in_name := Val []\<rparr>))"
proof (intro conjI impI)
  assume "in_title body \<in> {Absent, Null} \<or> in_description body \<in> {Absent, Null}"
  then have "validate_Campaign body = Inl RequestValidationError"
    by (cases "in_title body") (auto simp: validate_Campaign_def)
  then show "post_campaigns now d body = (Inl RequestValidationError, d)"
    by (simp add: post_campaigns_def)
next
  assume "in_name kbody \<in> {Absent, Null}"
  then have "validate_Contribution is_email kbody = Inl RequestValidationError"
    by (auto simp: validate_Contribution_def)
  then show "post_contributions is_email now d kbody = (Inl RequestValidationError, d)"
    by (simp add: post_contributions_def)
next
  show "isl (validate_Campaign (body\<lparr>in_title := Val t, in_description := Val u\<rparr>)) =
     isl (validate_Campaign (body\<lparr>in_title := Val [], in_description := Val []\<rparr>))"
    by (simp add: validate_Campaign_def isl_and_then)
next
  show "isl (validate_Contribution is_email (kbody\<lparr>in_name := Val n\<rparr>)) =
     isl (validate_Contribution is_email (kbody\<lparr>in_name := Val []\<rparr>))"
    by (simp add: validate_Contribution_def isl_and_then)
qed

theorem text_fields_required_witness:
  "post_campaigns 5 (db_with fresh_store) (roof_body\<lparr>in_title := Absent\<rparr>) =
     (Inl RequestValidationError, db_with fresh_store) \<and>
   post_contributions example_email 5 (db_with fresh_store) ((ann_body 5)\<lparr>in_name := Null\<rparr>) =
     (Inl RequestValidationError, db_with fresh_store)"
proof -
  have 1: "in_title (roof_body\<lparr>in_title := Absent\<rparr>) \<in> {Absent, Null}" by simp
  have 2: "in_name ((ann_body 5)\<lparr>in_name := Null\<rparr>) \<in> {Absent, Null}" by simp
  show ?thesis
    using text_fields_required [of "roof_body\<lparr>in_title := Absent\<rparr>" 5 "db_with fresh_store"
        "(ann_body 5)\<lparr>in_name := Null\<rparr>" example_email] 1 2
    by blast
qed

text \<open>
  C4, as stated, fails at NaN. NaN is not at most 0, yet the schema's \<^verbatim>\<open>gt=0\<close>
  refuses it, in a body that is accepted with the amount 5: the schema does not reject
  exactly the amounts that are at most 0. And the two checks do not agree there: the
  handler, given a model whose amount is NaN, finds \<^verbatim>\<open>amount <= 0\<close> false and
  writes the record.
\<close>

theorem nan_amount_splits_checks:
  "\<not> NaN \<le> (0 :: pyfloat) \<and>
   validate_Contribution example_email (ann_body 5) = Inr (ann 5) \<and>
   validate_Contribution example_email (ann_body NaN) = Inl RequestValidationError \<and>
   fst (add_contribution 5 (db_with fresh_store) (ann NaN)) = Inr 0 \<and>
   get_documents contribution (snd (add_contribution 5 (db_with fresh_store) (ann NaN))) =
     Inr [contribution_document 0 5 (ann NaN)]"
  by (simp add: validate_Contribution_def ann_body_def ann_def gt0_def email_str_def
      example_email_def add_contribution_def create_contribution_document_def
      get_documents_def db_with_def fresh_store_def pyfloat_simps)

text \<open>
  C4, amended. A contribution body whose amount is at most 0 is rejected and the store
  is the one the request found. Taken alone, the handler, given any model, answers its
  400 ``Amount must be positive'' exactly if the amount is at most 0, again without
  writing; and the schema, on a body whose other fields are valid, refuses exactly the
  amounts that are at most 0 and NaN. So the two checks agree on every amount other
  than NaN.
\<close>

theorem nonpositive_amount_rejected:
  "(in_amount kbody = Val a \<and> a \<le> 0 \<longrightarrow>
      post_contributions is_email now d kbody = (Inl RequestValidationError, d)) \<and>
   (amount k \<le> 0 \<longrightarrow>
      add_contribution now d k = (Inl (HTTPException 400 ''Amount must be positive''), d)) \<and>
   (fst (add_contribution now d k) = Inl (HTTPException 400 ''Amount must be positive'')) =
     (amount k \<le> 0) \<and>
   (in_name kbody = Val n \<and> in_email kbody = Val e \<and> is_email e \<and>
    in_is_public kbody \<noteq> Null \<and> in_amount kbody = Val a \<longrightarrow>
      isl (validate_Contribution is_email kbody) = (a \<le> 0 \<or> a = NaN) \<and>
      (a \<noteq> NaN \<and> amount k = a \<longrightarrow>
         isl (validate_Contribution is_email kbody) =
           (fst (add_contribution now d k) =
              Inl (HTTPException 400 ''Amount must be positive''))))"
proof -
  have handler: "(fst (add_contribution now d k) =
      Inl (HTTPException 400 ''Amount must be positive'')) = (amount k \<le> 0)"
    by (auto simp: add_contribution_def create_contribution_document_def
        split: option.splits server.splits)
  have body: "post_contributions is_email now d kbody = (Inl RequestValidationError, d)"
    if "in_amount kbody = Val a \<and> a \<le> 0"
  proof -
    from that have "\<not> 0 < a"
      by (simp add: not_positive)
    with that have "validate_Contribution is_email kbody = Inl RequestValidationError"
      by (cases "in_name kbody"; cases "in_email kbody")
         (auto simp: validate_Contribution_def gt0_def email_str_def)
    then show ?thesis
      by (simp add: post_contributions_def)
  qed
  have model: "add_contribution now d k =
      (Inl (HTTPException 400 ''Amount must be positive''), d)" if "amount k \<le> 0"
    using that by (simp add: add_contribution_def)
  have schema: "isl (validate_Contribution is_email kbody) = (a \<le> 0 \<or> a = NaN)"
    if "in_name kbody = Val n \<and> in_email kbody = Val e \<and> is_email e \<and>
        in_is_public kbody \<noteq> Null \<and> in_amount kbody = Val a"
    using that not_positive [of a]
    by (cases "in_is_public kbody")
       (auto simp: validate_Contribution_def gt0_def email_str_def)
  from handler body model schema show ?thesis
    by auto
qed

theorem nonpositive_amount_rejected_witness:
  "post_contributions example_email 5 (db_with fresh_store) (ann_body (- 3)) =
     (Inl RequestValidationError, db_with fresh_store) \<and>
   add_contribution 5 (db_with fresh_store) (ann 0) =
     (Inl (HTTPException 400 ''Amount must be positive''), db_with fresh_store) \<and>
   isl (validate_Contribution example_email (ann_body (- 3))) \<and>
   fst (add_contribution 5 (db_with fresh_store) (ann (- 3))) =
     Inl (HTTPException 400 ''Amount must be positive'') \<and>
   \<not> isl (validate_Contribution example_email (ann_body 5))"
proof -
  have fields: "in_name (ann_body a) = Val ''Ann'' \<and> in_email (ann_body a) = Val ''ann@example.org'' \<and>
      example_email ''ann@example.org'' \<and> in_is_public (ann_body a) \<noteq> Null \<and>
      in_amount (ann_body a) = Val a" for a
    by (simp add: ann_body_def example_email_def)
  have 1: "in_amount (ann_body (- 3)) = Val (- 3) \<and> (- 3 :: pyfloat) \<le> 0"
    by (simp add: ann_body_def pyfloat_simps)
  have 2: "amount (ann 0) \<le> 0"
    by (simp add: ann_def pyfloat_simps)
  have 3: "(- 3 :: pyfloat) \<noteq> NaN \<and> amount (ann (- 3)) = - 3"
    by (simp add: ann_def pyfloat_simps)
  have 4: "\<not> ((5 :: pyfloat) \<le> 0 \<or> (5 :: pyfloat) = NaN)"
    by (simp add: pyfloat_simps)
  note neg = nonpositive_amount_rejected [of "ann_body (- 3)" "- 3" example_email 5
      "db_with fresh_store" "ann 0" "''Ann''" "''ann@example.org''"]
  note neg' = nonpositive_amount_rejected [of "ann_body (- 3)" "- 3" example_email 5
      "db_with fresh_store" "ann (- 3)" "''Ann''" "''ann@example.org''"]
  note pos = nonpositive_amount_rejected [of "ann_body 5" 5 example_email 5
      "db_with fresh_store" "ann 5" "''Ann''" "''ann@example.org''"]
  from neg 1 2 have a: "post_contributions example_email 5 (db_with fresh_store) (ann_body (- 3)) =
      (Inl RequestValidationError, db_with fresh_store)"
    and b: "add_contribution 5 (db_with fresh_store) (ann 0) =
      (Inl (HTTPException 400 ''Amount must be positive''), db_with fresh_store)"
    by blast+
  from neg' fields [of "- 3"] 1 3 have c: "isl (validate_Contribution example_email (ann_body (- 3)))"
    and d: "fst (add_contribution 5 (db_with fresh_store) (ann (- 3))) =
      Inl (HTTPException 400 ''Amount must be positive'')"
    by blast+
  from pos fields [of 5] 4 have e: "\<not> isl (validate_Contribution example_email (ann_body 5))"
    by blast
  from a b c d e show ?thesis
    by (intro conjI)
qed

subsection \<open>Summary\<close>

lemma sum_amounts_returned:
  "\<forall>x \<in> set xs. kd_amount x \<noteq> Null \<Longrightarrow> \<exists>t. sum_amounts acc xs = Inr t"
proof (induction xs arbitrary: acc)
  case Nil
  then show ?case by simp
next
  case (Cons x xs)
  then show ?case
    by (cases "kd_amount x") simp_all
qed

lemma sum_amounts_absent:
  "kd_amount k = Absent \<Longrightarrow> sum_amounts acc (xs @ k # ys) = sum_amounts acc (xs @ ys)"
proof (induction xs arbitrary: acc)
  case Nil
  then show ?case by simp
next
  case (Cons x xs)
  then show ?case
    by (cases "py_float (get_default (kd_amount x) 0)") simp_all
qed

lemma percent_of_returned: "\<exists>p. percent_of t g = Inr p"
  by (cases g; cases t) (auto simp: percent_of_def pyfloat_simps)

lemma get_summary_reachable:
  "server_of h = Reachable s \<Longrightarrow>
   get_summary (Some h) =
     and_then
       (case campaign s of
          [] \<Rightarrow> Inr (100000, Some 100)
        | c # _ \<Rightarrow>
            and_then (py_float (get_default (cd_goal_amount c) 100000)) (\<lambda>g.
              Inr (g, get_default (cd_max_supporters c) 100)))
       (\<lambda>(goal, max_supporters).
     and_then (sum_amounts 0 (contribution s)) (\<lambda>total.
     and_then (percent_of total goal) (\<lambda>percent.
       case max_supporters of
            None \<Rightarrow> Inl TypeError
          | Some m \<Rightarrow>
              Inr \<lparr>goal = goal, raised = total, backers = length (contribution s),
                   percent = percent,
                   remaining_supporters = max 0 (m - int (length (contribution s)))\<rparr>)))"
  by (simp add: get_summary_def get_documents_def Let_def)

lemma percent_of_examples:
  "percent_of 0 1000 = Inr 0"
  "percent_of 150 1000 = Inr 15"
  by (simp_all add: percent_of_def pyfloat_simps)

text \<open>
  C6. With no campaign document in a reachable store, every summary that the handler
  returns has goal 100000, counts every stored contribution as a backer and has
  \<^verbatim>\<open>max(0, 100 - backers)\<close> remaining supporters. The two defaults are what the
  whole computation runs on: the handler behaves as it does on the same store with a
  first campaign whose goal amount is 100000 and whose maximum of supporters is 100.
  And it returns a summary whenever no stored amount is null.
\<close>

theorem summary_defaults:
  assumes "server_of h = Reachable s" and "campaign s = []"
  shows "(get_summary (Some h) = Inr r \<longrightarrow>
            goal r = 100000 \<and>
            backers r = length (contribution s) \<and>
            remaining_supporters r = max 0 (100 - int (backers r))) \<and>
         (cd_goal_amount c = Val 100000 \<and> cd_max_supporters c = Val 100 \<longrightarrow>
            get_summary (Some (h\<lparr>server_of := Reachable (s\<lparr>campaign := c # cs\<rparr>)\<rparr>)) =
              get_summary (Some h)) \<and>
         ((\<forall>x \<in> set (contribution s). kd_amount x \<noteq> Null) \<longrightarrow>
            (\<exists>r. get_summary (Some h) = Inr r))"
proof (intro conjI impI)
  note summary = get_summary_reachable [OF assms(1), unfolded assms(2)]
  {
    assume r: "get_summary (Some h) = Inr r"
    then obtain total where total: "sum_amounts 0 (contribution s) = Inr total"
      unfolding summary by (cases "sum_amounts 0 (contribution s)") simp_all
    obtain p where p: "percent_of total 100000 = Inr p"
      using percent_of_returned by blast
    from r have "r = \<lparr>goal = 100000, raised = total, backers = length (contribution s),
        percent = p, remaining_supporters = max 0 (100 - int (length (contribution s)))\<rparr>"
      unfolding summary by (simp add: total p)
    then show "goal r = 100000" and "backers r = length (contribution s)"
      and "remaining_supporters r = max 0 (100 - int (backers r))"
      by simp_all
  }
  {
    assume "cd_goal_amount c = Val 100000 \<and> cd_max_supporters c = Val 100"
    then show "get_summary (Some (h\<lparr>server_of := Reachable (s\<lparr>campaign := c # cs\<rparr>)\<rparr>)) =
        get_summary (Some h)"
      unfolding summary by (simp add: get_summary_reachable)
  }
  {
    assume "\<forall>x \<in> set (contribution s). kd_amount x \<noteq> Null"
    then obtain total where total: "sum_amounts 0 (contribution s) = Inr total"
      using sum_amounts_returned by blast
    obtain p where p: "percent_of total 100000 = Inr p"
      using percent_of_returned by blast
    show "\<exists>r. get_summary (Some h) = Inr r"
      unfolding summary by (simp add: total p)
  }
qed

theorem summary_defaults_witness:
  "(\<exists>r. get_summary (db_with (store_of [] [gift 1 Absent 3, gift 2 (Val 150) 4])) = Inr r \<and>
         goal r = 100000 \<and> backers r = 2 \<and> remaining_supporters r = 98) \<and>
   get_summary (db_with (store_of [campaign_of 100000 100] [gift 1 Absent 3, gift 2 (Val 150) 4])) =
     get_summary (db_with (store_of [] [gift 1 Absent 3, gift 2 (Val 150) 4]))"
proof -
  let ?s = "store_of [] [gift 1 Absent 3, gift 2 (Val 150) 4]"
  let ?h = "\<lparr>name_of = Name ''crowd'', server_of = Reachable ?s\<rparr>"
  let ?c = "campaign_of 100000 100"
  have reach: "server_of ?h = Reachable ?s" by simp
  have none: "campaign ?s = []" by (simp add: store_of_def)
  have amounts: "\<forall>x \<in> set (contribution ?s). kd_amount x \<noteq> Null"
    by (simp add: store_of_def gift_def)
  have count: "length (contribution ?s) = 2"
    by (simp add: store_of_def)
  have c: "cd_goal_amount ?c = Val 100000 \<and> cd_max_supporters ?c = Val 100"
    by (simp add: campaign_of_def)
  have with_c: "?h\<lparr>server_of := Reachable (?s\<lparr>campaign := ?c # []\<rparr>)\<rparr> =
      \<lparr>name_of = Name ''crowd'',
       server_of = Reachable (store_of [?c] [gift 1 Absent 3, gift 2 (Val 150) 4])\<rparr>"
    by (simp add: store_of_def)
  note t = summary_defaults [OF reach none, of _ ?c "[]"]
  from t amounts obtain r where r: "get_summary (Some ?h) = Inr r"
    by blast
  from t [of r] r have "goal r = 100000" and "backers r = length (contribution ?s)"
    and "remaining_supporters r = max 0 (100 - int (backers r))"
    by blast+
  then have "goal r = 100000 \<and> backers r = 2 \<and> remaining_supporters r = 98"
    unfolding count by simp
  with r have first: "\<exists>r. get_summary (Some ?h) = Inr r \<and>
      goal r = 100000 \<and> backers r = 2 \<and> remaining_supporters r = 98"
    by blast
  from t [of r] c
  have "get_summary (Some (?h\<lparr>server_of := Reachable (?s\<lparr>campaign := ?c # []\<rparr>)\<rparr>)) =
      get_summary (Some ?h)"
    by blast
  then have second: "get_summary (Some \<lparr>name_of = Name ''crowd'',
       server_of = Reachable (store_of [?c] [gift 1 Absent 3, gift 2 (Val 150) 4])\<rparr>) =
      get_summary (Some ?h)"
    unfolding with_c .
  from first second show ?thesis
    unfolding db_with_def by (rule conjI)
qed

text \<open>
  C2: the summary after a campaign was created with \<^verbatim>\<open>"max_supporters": null\<close>.
  The schema declares the field \<^verbatim>\<open>Optional[int]\<close>, so the body is valid and the
  document is stored with a null maximum; \<^verbatim>\<open>c.get("max_supporters", 100)\<close> then
  gives \<^verbatim>\<open>None\<close>, its default standing only for an absent field, and
  \<^verbatim>\<open>max_supporters - count\<close> raises \<^verbatim>\<open>TypeError\<close>: no summary is returned, as
  on any store whose first campaign document has a null maximum. The same body without
  the field is stored with the schema's default and its summary has 100 remaining
  supporters.
\<close>

theorem summary_null_max_supporters:
  "fst (post_campaigns 5 (db_with fresh_store) (roof_body\<lparr>in_max_supporters := Null\<rparr>)) = Inr 0 \<and>
   get_summary (snd (post_campaigns 5 (db_with fresh_store) (roof_body\<lparr>in_max_supporters := Null\<rparr>))) =
     Inl TypeError \<and>
   get_summary (db_with (store_of [(campaign_of 1000 10)\<lparr>cd_max_supporters := Null\<rparr>]
       [gift 1 (Val 150) 4])) = Inl TypeError \<and>
   fst (post_campaigns 5 (db_with fresh_store) (roof_body\<lparr>in_max_supporters := Absent\<rparr>)) = Inr 0 \<and>
   map_sum id remaining_supporters
     (get_summary (snd (post_campaigns 5 (db_with fresh_store)
        (roof_body\<lparr>in_max_supporters := Absent\<rparr>)))) = Inr 100"
proof -
  have stored: "get_summary (db_with (store_of [(campaign_of 1000 10)\<lparr>cd_max_supporters := Null\<rparr>]
       [gift 1 (Val 150) 4])) = Inl TypeError"
    by (simp add: get_summary_reachable db_with_def store_of_def campaign_of_def gift_def
        percent_of_examples)
  have post: "post_campaigns 5 (db_with fresh_store) (roof_body\<lparr>in_max_supporters := m\<rparr>) =
      (Inr 0, Some \<lparr>name_of = Name ''crowd'', server_of = Reachable
         \<lparr>collection_names = [''campaign''],
          campaign = [campaign_document 0 5 (roof\<lparr>max_supporters := optional (Some 100) m\<rparr>)],
          contribution = [], next_id = 1\<rparr>\<rparr>)" if "m = Null \<or> m = Absent" for m
    using that
    by (auto simp: post_campaigns_def validate_Campaign_def roof_body_def roof_def gt0_def
        create_campaign_def get_documents_def create_campaign_document_def db_with_def
        fresh_store_def pyfloat_simps)
  have posted: "fst (post_campaigns 5 (db_with fresh_store) (roof_body\<lparr>in_max_supporters := Null\<rparr>)) = Inr 0 \<and>
      get_summary (snd (post_campaigns 5 (db_with fresh_store) (roof_body\<lparr>in_max_supporters := Null\<rparr>))) =
        Inl TypeError \<and>
      fst (post_campaigns 5 (db_with fresh_store) (roof_body\<lparr>in_max_supporters := Absent\<rparr>)) = Inr 0 \<and>
      map_sum id remaining_supporters
        (get_summary (snd (post_campaigns 5 (db_with fresh_store)
           (roof_body\<lparr>in_max_supporters := Absent\<rparr>)))) = Inr 100"
    by (simp add: post get_summary_reachable campaign_document_def roof_def percent_of_examples)
  from stored posted show ?thesis
    by blast
qed

text \<open>
  C10. Adding, anywhere in the collection, a contribution document without an amount
  field to a store whose summary is returned leaves raised, goal and percent as they
  were, makes backers one more and remaining supporters one less (down to 0 at most).
\<close>

theorem amountless_contribution_counts:
  assumes "server_of h = Reachable s"
    and "server_of h' = Reachable s'"
    and "campaign s' = campaign s"
    and "contribution s = xs @ ys"
    and "contribution s' = xs @ x # ys"
    and "kd_amount x = Absent"
    and "get_summary (Some h) = Inr r"
  shows "get_summary (Some h') =
           Inr (r\<lparr>backers := Suc (backers r),
                  remaining_supporters := max 0 (remaining_supporters r - 1)\<rparr>)"
proof -
  obtain g ms where
    first: "(case campaign s of
          [] \<Rightarrow> Inr (100000, Some 100)
        | c # _ \<Rightarrow>
            and_then (py_float (get_default (cd_goal_amount c) 100000)) (\<lambda>g.
              Inr (g, get_default (cd_max_supporters c) 100))) = Inr (g, ms)"
    (is "?first = _")
    using assms(7) by (cases ?first) (auto simp: get_summary_reachable [OF assms(1)])
  obtain total where total: "sum_amounts 0 (contribution s) = Inr total"
    using assms(7) first
    by (cases "sum_amounts 0 (contribution s)") (auto simp: get_summary_reachable [OF assms(1)])
  obtain p where p: "percent_of total g = Inr p"
    using percent_of_returned by blast
  obtain m where m: "ms = Some m"
    using assms(7) first total p
    by (cases ms) (auto simp: get_summary_reachable [OF assms(1)])
  have total': "sum_amounts 0 (contribution s') = Inr total"
    using total assms(4,5,6) by (simp add: sum_amounts_absent)
  have r: "r = \<lparr>goal = g, raised = total, backers = length (contribution s),
                percent = p,
                remaining_supporters = max 0 (m - int (length (contribution s)))\<rparr>"
    using assms(7) first total p m by (simp add: get_summary_reachable [OF assms(1)])
  have len: "length (contribution s') = Suc (length (contribution s))"
    using assms(4,5) by simp
  show ?thesis
    using first total' p m assms(3)
    by (simp add: get_summary_reachable [OF assms(2)] r len)
qed

theorem amountless_contribution_counts_witness:
  "get_summary (db_with (store_of [campaign_of 1000 10] [gift 2 (Val 150) 4])) =
     Inr \<lparr>goal = 1000, raised = 150, backers = 1, percent = 15, remaining_supporters = 9\<rparr> \<and>
   get_summary (db_with (store_of [campaign_of 1000 10] [gift 1 Absent 3, gift 2 (Val 150) 4])) =
     Inr \<lparr>goal = 1000, raised = 150, backers = 2, percent = 15, remaining_supporters = 8\<rparr>"
proof -
  let ?s = "store_of [campaign_of 1000 10] [gift 2 (Val 150) 4]"
  let ?t = "store_of [campaign_of 1000 10] [gift 1 Absent 3, gift 2 (Val 150) 4]"
  let ?h = "\<lparr>name_of = Name ''crowd'', server_of = Reachable ?s\<rparr>"
  let ?k = "\<lparr>name_of = Name ''crowd'', server_of = Reachable ?t\<rparr>"
  let ?r = "\<lparr>goal = 1000, raised = 150, backers = 1, percent = 15, remaining_supporters = 9\<rparr>"
  have 1: "server_of ?h = Reachable ?s" and 2: "server_of ?k = Reachable ?t"
    by simp_all
  have 3: "campaign ?t = campaign ?s"
    and 4: "contribution ?s = [] @ [gift 2 (Val 150) 4]"
    and 5: "contribution ?t = [] @ gift 1 Absent 3 # [gift 2 (Val 150) 4]"
    by (simp_all add: store_of_def)
  have 6: "kd_amount (gift 1 Absent 3) = Absent"
    by (simp add: gift_def)
  have 7: "get_summary (Some ?h) = Inr ?r"
    by (simp add: get_summary_reachable store_of_def campaign_of_def gift_def
        percent_of_examples)
  from amountless_contribution_counts [OF 1 2 3 4 5 6 7]
  have "get_summary (Some ?k) =
      Inr \<lparr>goal = 1000, raised = 150, backers = 2, percent = 15, remaining_supporters = 8\<rparr>"
    by simp
  with 7 show ?thesis
    unfolding db_with_def by (rule conjI)
qed

subsection \<open>Listing\<close>

lemma build_result_map:
  "\<forall>x \<in> set xs. out x = Inr (f x) \<Longrightarrow> build_result out xs = Inr (map f xs)"
  by (induction xs) simp_all

lemma well_formed_campaign_out:
  "well_formed_campaign it \<Longrightarrow>
   \<exists>v. campaign_out it = Inr v \<and> cd_created_at it = Val (co_created_at v)"
  by (cases "cd_title it"; cases "cd_description it"; cases "cd_goal_amount it";
      cases "cd_created_at it")
     (simp_all add: well_formed_campaign_def campaign_out_def)

lemma well_formed_contribution_out:
  "well_formed_contribution is_email it \<Longrightarrow>
   \<exists>v. contribution_out is_email it = Inr v \<and> kd_created_at it = Val (ko_created_at v)"
  by (cases "kd_name it"; cases "kd_email it"; cases "kd_amount it"; cases "kd_created_at it")
     (simp_all add: well_formed_contribution_def contribution_out_def)

lemma sort_newest_first_values:
  "\<forall>x \<in> set items. \<exists>t. created x = Val t \<Longrightarrow>
   sort_newest_first created items = Inr (sort_key (\<lambda>x. newest_key (created x)) items)"
  by (auto simp: sort_newest_first_def)

lemma sorted_take_drop:
  assumes "sorted (map k xs)" and "x \<in> set (take n xs)" and "y \<in> set (drop n xs)"
  shows "k x \<le> k y"
proof -
  have "sorted (map k (take n xs) @ map k (drop n xs))"
    using assms(1) by (simp flip: map_append)
  then show ?thesis
    using assms(2,3) by (auto simp: sorted_append)
qed

lemma listing:
  assumes "\<forall>x \<in> set items. \<exists>v. out x = Inr v \<and> created x = Val (time v)"
  shows "\<exists>f. (\<forall>x \<in> set items. out x = Inr (f x) \<and> created x = Val (time (f x))) \<and>
           sort_newest_first created items = Inr (sort_key (\<lambda>x. newest_key (created x)) items) \<and>
           (\<forall>n. build_result out (take n (sort_key (\<lambda>x. newest_key (created x)) items)) =
              Inr (map f (take n (sort_key (\<lambda>x. newest_key (created x)) items))))"
proof -
  let ?f = "\<lambda>x. projr (out x)"
  have f: "\<forall>x \<in> set items. out x = Inr (?f x) \<and> created x = Val (time (?f x))"
    using assms by fastforce
  then have "sort_newest_first created items = Inr (sort_key (\<lambda>x. newest_key (created x)) items)"
    by (intro sort_newest_first_values) blast
  moreover have "build_result out (take n (sort_key (\<lambda>x. newest_key (created x)) items)) =
      Inr (map ?f (take n (sort_key (\<lambda>x. newest_key (created x)) items)))" for n
    using f by (intro build_result_map) (auto dest: in_set_takeD)
  ultimately show ?thesis
    using f by (intro exI [of _ ?f]) simp
qed

lemma newest_prefix:
  fixes out :: "'d \<Rightarrow> error + 'o" and time :: "'o \<Rightarrow> int"
  assumes f: "\<forall>x \<in> set items. out x = Inr (f x) \<and> created x = Val (time (f x))"
    and vs: "vs = map f (take n (sort_key (\<lambda>x. newest_key (created x)) items))"
  shows "length vs = min n (length items)"
    and "sorted_wrt (\<lambda>a b. time b \<le> time a) vs"
    and "mset (map Inr vs) \<subseteq># mset (map out items)"
    and "\<forall>v \<in> set vs. \<forall>w. Inr w \<in># mset (map out items) - mset (map Inr vs) \<longrightarrow> time w \<le> time v"
    and "length items \<le> n \<Longrightarrow> mset (map Inr vs) = mset (map out items)"
proof -
  let ?key = "\<lambda>x. newest_key (created x)"
  let ?sorted = "sort_key ?key items"
  have key: "?key x = - time (f x)" if "x \<in> set items" for x
    using f that by (simp add: newest_key_def)
  have out: "map Inr (map f ys) = map out ys" if "set ys \<subseteq> set items" for ys
    using f that by (induction ys) simp_all
  have split: "mset (map out items) = mset (map out (take n ?sorted)) + mset (map out (drop n ?sorted))"
  proof -
    have "mset (map out items) = mset (map out ?sorted)"
      by simp
    also have "\<dots> = mset (map out (take n ?sorted @ drop n ?sorted))"
      by simp
    finally show ?thesis
      by (simp only: map_append mset_append)
  qed
  have taken: "map Inr vs = map out (take n ?sorted)"
    unfolding vs by (rule out) (auto dest: in_set_takeD)
  show "length vs = min n (length items)"
    by (simp add: vs min.commute)
  have "sorted (map ?key (take n ?sorted))"
    by (simp flip: take_map add: sorted_wrt_take)
  then have "sorted_wrt (\<lambda>x y. ?key x \<le> ?key y) (take n ?sorted)"
    by (simp add: sorted_map)
  then have "sorted_wrt (\<lambda>x y. time (f y) \<le> time (f x)) (take n ?sorted)"
  proof (rule sorted_wrt_mono_rel [rotated])
    fix x y
    assume "x \<in> set (take n ?sorted)" "y \<in> set (take n ?sorted)" "?key x \<le> ?key y"
    then show "time (f y) \<le> time (f x)"
      using key [of x] key [of y] by (auto dest!: in_set_takeD)
  qed
  then show "sorted_wrt (\<lambda>a b. time b \<le> time a) vs"
    by (simp add: vs sorted_wrt_map)
  show "mset (map Inr vs) \<subseteq># mset (map out items)"
    unfolding taken split by simp
  show "\<forall>v \<in> set vs. \<forall>w. Inr w \<in># mset (map out items) - mset (map Inr vs) \<longrightarrow> time w \<le> time v"
  proof (intro ballI allI impI)
    fix v w
    assume v: "v \<in> set vs" and w: "Inr w \<in># mset (map out items) - mset (map Inr vs)"
    from v obtain x where x: "x \<in> set (take n ?sorted)" "v = f x"
      by (auto simp: vs)
    from w have "Inr w \<in> set (map out (drop n ?sorted))"
      unfolding taken split by simp
    then obtain y where y: "y \<in> set (drop n ?sorted)" "out y = Inr w"
      by auto
    have "y \<in> set items"
      using y(1) by (auto dest: in_set_dropD)
    with f y(2) have wy: "w = f y"
      by auto
    have "x \<in> set items"
      using x(1) by (auto dest: in_set_takeD)
    have "?key x \<le> ?key y"
      using x(1) y(1) by (intro sorted_take_drop [of ?key ?sorted x n y]) simp_all
    then show "time w \<le> time v"
      using key [OF \<open>x \<in> set items\<close>] key [OF \<open>y \<in> set items\<close>] by (simp add: x(2) wy)
  qed
  show "mset (map Inr vs) = mset (map out items)" if "length items \<le> n"
    using that unfolding taken by simp
qed

lemma list_contributions_reachable:
  "server_of h = Reachable s \<Longrightarrow>
   list_contributions is_email (Some h) limit =
     and_then (sort_newest_first kd_created_at (contribution s)) (\<lambda>sorted.
       build_result (contribution_out is_email) (slice_to sorted limit))"
  by (simp add: list_contributions_def get_documents_def)

lemma list_campaigns_reachable:
  "server_of h = Reachable s \<Longrightarrow>
   list_campaigns (Some h) =
     and_then (sort_newest_first cd_created_at (campaign s)) (build_result campaign_out)"
  by (simp add: list_campaigns_def get_documents_def)

lemma slice_to_sorted:
  "slice_to (sort_key k items) limit =
     take (if 0 \<le> limit then nat limit else length items - nat (- limit)) (sort_key k items)"
proof -
  have "nat (int (length items) + limit) = length items - nat (- limit)" if "limit < 0"
    using that by linarith
  then show ?thesis
    by (simp add: slice_to_def)
qed

lemma five_gifts_well_formed:
  "\<forall>it \<in> set (contribution (store_of cs five_gifts)). well_formed_contribution example_email it"
  by (simp add: store_of_def five_gifts_def gift_def well_formed_contribution_def example_email_def)

lemma five_gifts_sorted:
  "sort_key (\<lambda>x. newest_key (kd_created_at x)) five_gifts =
     [gift 3 (Val 30) 50, gift 5 (Val 50) 40, gift 1 (Val 10) 30, gift 4 (Val 40) 20,
      gift 2 (Val 20) 10]"
  by (simp add: five_gifts_def gift_def newest_key_def)

lemma five_gifts_sort:
  "sort_newest_first kd_created_at five_gifts =
     Inr [gift 3 (Val 30) 50, gift 5 (Val 50) 40, gift 1 (Val 10) 30, gift 4 (Val 40) 20,
          gift 2 (Val 20) 10]"
proof -
  have "\<forall>x \<in> set five_gifts. \<exists>t. kd_created_at x = Val t"
    by (simp add: five_gifts_def gift_def)
  then show ?thesis
    by (simp only: sort_newest_first_values five_gifts_sorted)
qed

lemma gift_out:
  "contribution_out example_email (gift i (Val a) t) =
     Inr \<lparr>ko_id = i, ko_name = ''Ann'', ko_email = ''ann@example.org'', ko_amount = a,
          ko_message = None, ko_is_public = True, ko_created_at = t\<rparr>"
  by (simp add: contribution_out_def gift_def example_email_def py_bool_def)

lemma five_gifts_listing:
  "map_sum id (map ko_id) (list_contributions example_email (db_with (store_of cs five_gifts)) 3) =
     Inr [3, 5, 1]"
  "map_sum id (map ko_id) (list_contributions example_email (db_with (store_of cs five_gifts)) (- 2)) =
     Inr [3, 5, 1]"
  "map_sum id length (list_contributions example_email (db_with (store_of cs five_gifts)) (- 1)) =
     Inr 4"
proof -
  have reach: "server_of \<lparr>name_of = Name ''crowd'', server_of = Reachable (store_of cs five_gifts)\<rparr> =
      Reachable (store_of cs five_gifts)"
    by simp
  have k: "contribution (store_of cs five_gifts) = five_gifts"
    by (simp add: store_of_def)
  note l = list_contributions_reachable [OF reach, unfolded k five_gifts_sort and_then_simps]
  show "map_sum id (map ko_id) (list_contributions example_email (db_with (store_of cs five_gifts)) 3) =
     Inr [3, 5, 1]"
    unfolding db_with_def l by (simp add: slice_to_def gift_out)
  show "map_sum id (map ko_id) (list_contributions example_email (db_with (store_of cs five_gifts)) (- 2)) =
     Inr [3, 5, 1]"
    unfolding db_with_def l by (simp add: slice_to_def gift_out)
  show "map_sum id length (list_contributions example_email (db_with (store_of cs five_gifts)) (- 1)) =
     Inr 4"
    unfolding db_with_def l by (simp add: slice_to_def gift_out)
qed

text \<open>
  C5, as stated, fails: with five stored contributions and \<^verbatim>\<open>limit = -1\<close> the
  listing returns four records, where \<^verbatim>\<open>min(limit, number stored)\<close> is -1. The
  parameter is any integer and the handler slices with it as it comes.
\<close>

theorem negative_limit_count:
  "map_sum id length (list_contributions example_email (db_with (store_of [] five_gifts)) (- 1)) =
     Inr 4 \<and>
   int 4 \<noteq> min (- 1) (int (length five_gifts))"
  using five_gifts_listing(3) [of "[]"] by (simp add: five_gifts_def)

text \<open>
  C5, amended. On a reachable store of well-formed documents, listing the campaigns
  returns all campaign records, and listing the contributions with a limit that is not
  negative (200 when the parameter is not given) returns exactly
  \<^verbatim>\<open>min(limit, number stored)\<close> records, all of them stored ones; both sequences are
  ordered by \<^verbatim>\<open>created_at\<close>, newest first, and no contribution left out is newer than
  one that is returned.
\<close>

theorem lists_newest_first:
  assumes "server_of h = Reachable s"
    and "\<forall>it \<in> set (campaign s). well_formed_campaign it"
    and "\<forall>it \<in> set (contribution s). well_formed_contribution is_email it"
    and "0 \<le> limit"
  shows "\<exists>cs ks.
      list_campaigns (Some h) = Inr cs \<and>
      list_contributions is_email (Some h) limit = Inr ks \<and>
      mset (map Inr cs) = mset (map campaign_out (campaign s)) \<and>
      sorted_wrt (\<lambda>a b. co_created_at b \<le> co_created_at a) cs \<and>
      int (length ks) = min limit (int (length (contribution s))) \<and>
      sorted_wrt (\<lambda>a b. ko_created_at b \<le> ko_created_at a) ks \<and>
      mset (map Inr ks) \<subseteq># mset (map (contribution_out is_email) (contribution s)) \<and>
      (\<forall>v \<in> set ks. \<forall>w.
         Inr w \<in># mset (map (contribution_out is_email) (contribution s)) - mset (map Inr ks) \<longrightarrow>
         ko_created_at w \<le> ko_created_at v) \<and>
      get_contributions is_email (Some h) None = list_contributions is_email (Some h) 200"
proof -
  let ?csort = "sort_key (\<lambda>x. newest_key (cd_created_at x)) (campaign s)"
  let ?ksort = "sort_key (\<lambda>x. newest_key (kd_created_at x)) (contribution s)"
  have "\<forall>x \<in> set (campaign s). \<exists>v. campaign_out x = Inr v \<and> cd_created_at x = Val (co_created_at v)"
    using assms(2) by (blast dest: well_formed_campaign_out)
  from listing [OF this] obtain f where
    f: "\<forall>x \<in> set (campaign s). campaign_out x = Inr (f x) \<and> cd_created_at x = Val (co_created_at (f x))"
    and fsort: "sort_newest_first cd_created_at (campaign s) = Inr ?csort"
    and fall: "\<And>n. build_result campaign_out (take n ?csort) = Inr (map f (take n ?csort))"
    by blast
  define cs where "cs = map f (take (length (campaign s)) ?csort)"
  have cs: "list_campaigns (Some h) = Inr cs"
    using fall [of "length (campaign s)"]
    by (simp add: list_campaigns_reachable [OF assms(1)] fsort cs_def)
  have "\<forall>x \<in> set (contribution s). \<exists>v. contribution_out is_email x = Inr v \<and>
      kd_created_at x = Val (ko_created_at v)"
    using assms(3) by (blast dest: well_formed_contribution_out)
  from listing [OF this] obtain g where
    g: "\<forall>x \<in> set (contribution s). contribution_out is_email x = Inr (g x) \<and>
          kd_created_at x = Val (ko_created_at (g x))"
    and gsort: "sort_newest_first kd_created_at (contribution s) = Inr ?ksort"
    and gall: "\<And>n. build_result (contribution_out is_email) (take n ?ksort) =
          Inr (map g (take n ?ksort))"
    by blast
  define ks where "ks = map g (take (nat limit) ?ksort)"
  have ks: "list_contributions is_email (Some h) limit = Inr ks"
    using assms(4)
    by (simp add: list_contributions_reachable [OF assms(1)] gsort slice_to_sorted gall ks_def)
  note c = newest_prefix [OF f cs_def]
  note k = newest_prefix [OF g ks_def]
  show ?thesis
  proof (intro exI conjI)
    show "list_campaigns (Some h) = Inr cs"
      by (fact cs)
    show "list_contributions is_email (Some h) limit = Inr ks"
      by (fact ks)
    show "mset (map Inr cs) = mset (map campaign_out (campaign s))"
      by (rule c(5)) simp
    show "sorted_wrt (\<lambda>a b. co_created_at b \<le> co_created_at a) cs"
      by (fact c(2))
    show "int (length ks) = min limit (int (length (contribution s)))"
      using k(1) assms(4) by simp
    show "sorted_wrt (\<lambda>a b. ko_created_at b \<le> ko_created_at a) ks"
      by (fact k(2))
    show "mset (map Inr ks) \<subseteq># mset (map (contribution_out is_email) (contribution s))"
      by (fact k(3))
    show "\<forall>v \<in> set ks. \<forall>w.
         Inr w \<in># mset (map (contribution_out is_email) (contribution s)) - mset (map Inr ks) \<longrightarrow>
         ko_created_at w \<le> ko_created_at v"
      by (fact k(4))
    show "get_contributions is_email (Some h) None = list_contributions is_email (Some h) 200"
      by (simp add: get_contributions_def)
  qed
qed

theorem lists_newest_first_witness:
  "(\<exists>cs ks.
      list_campaigns (db_with (store_of [campaign_of 1000 10] five_gifts)) = Inr cs \<and>
      list_contributions example_email (db_with (store_of [campaign_of 1000 10] five_gifts)) 3 = Inr ks \<and>
      length cs = 1 \<and> length ks = 3 \<and>
      sorted_wrt (\<lambda>a b. ko_created_at b \<le> ko_created_at a) ks) \<and>
   map_sum id (map ko_id)
     (list_contributions example_email (db_with (store_of [campaign_of 1000 10] five_gifts)) 3) =
     Inr [3, 5, 1]"
proof -
  let ?s = "store_of [campaign_of 1000 10] five_gifts"
  let ?h = "\<lparr>name_of = Name ''crowd'', server_of = Reachable ?s\<rparr>"
  have reach: "server_of ?h = Reachable ?s" by simp
  have c: "campaign ?s = [campaign_of 1000 10]"
    by (simp add: store_of_def)
  have wfc: "\<forall>it \<in> set (campaign ?s). well_formed_campaign it"
    unfolding c by (simp add: campaign_of_def well_formed_campaign_def)
  have limit: "(0::int) \<le> 3" by simp
  have five: "int (length (contribution ?s)) = 5"
    by (simp add: store_of_def five_gifts_def)
  from lists_newest_first [OF reach wfc five_gifts_well_formed limit]
  obtain cs ks where
    1: "list_campaigns (Some ?h) = Inr cs"
    and 2: "list_contributions example_email (Some ?h) 3 = Inr ks"
    and 3: "mset (map Inr cs) = mset (map campaign_out (campaign ?s))"
    and 4: "int (length ks) = min 3 (int (length (contribution ?s)))"
    and 5: "sorted_wrt (\<lambda>a b. ko_created_at b \<le> ko_created_at a) ks"
    by blast
  from mset_eq_length [OF 3] have 6: "length cs = 1"
    unfolding c by simp
  from 4 have 7: "length ks = 3"
    unfolding five by simp
  from 1 2 5 6 7 have "\<exists>cs ks.
      list_campaigns (Some ?h) = Inr cs \<and>
      list_contributions example_email (Some ?h) 3 = Inr ks \<and>
      length cs = 1 \<and> length ks = 3 \<and>
      sorted_wrt (\<lambda>a b. ko_created_at b \<le> ko_created_at a) ks"
    by blast
  then show ?thesis
    unfolding db_with_def [symmetric]
    using five_gifts_listing(1) [of "[campaign_of 1000 10]"] by (rule conjI)
qed

text \<open>
  C9, as stated, fails: the claim is made for every stored list, and the store holds
  documents of any shape. With two documents of which one has no \<^verbatim>\<open>created_at\<close>,
  the sort compares \<^verbatim>\<open>None\<close> with a time and the listing with
  \<^verbatim>\<open>limit = 0\<close> raises \<^verbatim>\<open>TypeError\<close> before anything is sliced; and with a
  negative limit the listing fails when a document that the slice keeps has no amount,
  at \<^verbatim>\<open>float(None)\<close>.
\<close>

theorem incomplete_documents_fail_listing:
  "list_contributions example_email
     (db_with (store_of [] [gift 1 (Val 10) 30, (gift 2 (Val 20) 10)\<lparr>kd_created_at := Absent\<rparr>])) 0 =
     Inl TypeError \<and>
   list_contributions example_email
     (db_with (store_of [] [gift 1 Absent 30, gift 2 (Val 20) 10])) (- 1) = Inl TypeError"
proof -
  have "sort_newest_first kd_created_at
      [gift 1 (Val 10) 30, (gift 2 (Val 20) 10)\<lparr>kd_created_at := Absent\<rparr>] = Inl TypeError"
    by (simp add: sort_newest_first_def)
  moreover have "sort_newest_first kd_created_at [gift 1 Absent 30, gift 2 (Val 20) 10] =
      Inr [gift 1 Absent 30, gift 2 (Val 20) 10]"
    by (simp add: sort_newest_first_def gift_def newest_key_def)
  moreover have "contribution_out example_email (gift 1 Absent 30) = Inl TypeError"
    by (simp add: contribution_out_def gift_def)
  ultimately show ?thesis
    by (simp add: list_contributions_def get_documents_def db_with_def store_of_def slice_to_def)
qed

text \<open>
  C9, amended. On a reachable store, listing the contributions with \<^verbatim>\<open>limit = 0\<close>
  returns the empty sequence whenever the sort goes through (at most one document, or
  every document with a creation time). With a negative limit and well-formed documents
  the listing does not fail: it is the complete newest-first listing without its last,
  that is oldest, \<open>|limit|\<close> records.
\<close>

theorem limit_zero_and_negative:
  assumes "server_of h = Reachable s"
  shows "(length (contribution s) \<le> 1 \<or> (\<forall>it \<in> set (contribution s). get (kd_created_at it) \<noteq> None) \<longrightarrow>
            list_contributions is_email (Some h) 0 = Inr []) \<and>
         ((\<forall>it \<in> set (contribution s). well_formed_contribution is_email it) \<and> limit < 0 \<longrightarrow>
            (\<exists>every.
               list_contributions is_email (Some h) (int (length (contribution s))) = Inr every \<and>
               length every = length (contribution s) \<and>
               sorted_wrt (\<lambda>a b. ko_created_at b \<le> ko_created_at a) every \<and>
               list_contributions is_email (Some h) limit =
                 Inr (take (length every - nat (- limit)) every)))"
proof (rule conjI; rule impI)
  assume "length (contribution s) \<le> 1 \<or> (\<forall>it \<in> set (contribution s). get (kd_created_at it) \<noteq> None)"
  then have "sort_newest_first kd_created_at (contribution s) =
      Inr (sort_key (\<lambda>x. newest_key (kd_created_at x)) (contribution s))"
    by (auto simp: sort_newest_first_def)
  then show "list_contributions is_email (Some h) 0 = Inr []"
    by (simp add: list_contributions_reachable [OF assms] slice_to_def)
next
  let ?ksort = "sort_key (\<lambda>x. newest_key (kd_created_at x)) (contribution s)"
  assume a: "(\<forall>it \<in> set (contribution s). well_formed_contribution is_email it) \<and> limit < 0"
  then have "\<forall>x \<in> set (contribution s). \<exists>v. contribution_out is_email x = Inr v \<and>
      kd_created_at x = Val (ko_created_at v)"
    by (blast dest: well_formed_contribution_out)
  from listing [OF this] obtain g where
    g: "\<forall>x \<in> set (contribution s). contribution_out is_email x = Inr (g x) \<and>
          kd_created_at x = Val (ko_created_at (g x))"
    and gsort: "sort_newest_first kd_created_at (contribution s) = Inr ?ksort"
    and gall: "\<And>n. build_result (contribution_out is_email) (take n ?ksort) =
          Inr (map g (take n ?ksort))"
    by blast
  define every where "every = map g (take (length (contribution s)) ?ksort)"
  have every: "list_contributions is_email (Some h) (int (length (contribution s))) = Inr every"
    using gall [of "length (contribution s)"]
    by (simp add: list_contributions_reachable [OF assms] gsort slice_to_sorted every_def)
  note e = newest_prefix [OF g every_def]
  have len: "length every = length (contribution s)"
    using e(1) by simp
  have "list_contributions is_email (Some h) limit =
      Inr (map g (take (length (contribution s) - nat (- limit)) ?ksort))"
    using a by (simp add: list_contributions_reachable [OF assms] gsort slice_to_sorted gall)
  also have "map g (take (length (contribution s) - nat (- limit)) ?ksort) =
      take (length every - nat (- limit)) every"
    by (simp add: every_def take_map len [unfolded every_def])
  finally have "list_contributions is_email (Some h) limit =
      Inr (take (length every - nat (- limit)) every)" .
  with every len e(2) show "\<exists>every.
               list_contributions is_email (Some h) (int (length (contribution s))) = Inr every \<and>
               length every = length (contribution s) \<and>
               sorted_wrt (\<lambda>a b. ko_created_at b \<le> ko_created_at a) every \<and>
               list_contributions is_email (Some h) limit =
                 Inr (take (length every - nat (- limit)) every)"
    by blast
qed

theorem limit_zero_and_negative_witness:
  "list_contributions example_email (db_with (store_of [] five_gifts)) 0 = Inr [] \<and>
   (\<exists>every.
      list_contributions example_email (db_with (store_of [] five_gifts)) 5 = Inr every \<and>
      list_contributions example_email (db_with (store_of [] five_gifts)) (- 2) =
        Inr (take 3 every)) \<and>
   map_sum id (map ko_id) (list_contributions example_email (db_with (store_of [] five_gifts)) (- 2)) =
     Inr [3, 5, 1]"
proof -
  let ?s = "store_of [] five_gifts"
  let ?h = "\<lparr>name_of = Name ''crowd'', server_of = Reachable ?s\<rparr>"
  have reach: "server_of ?h = Reachable ?s" by simp
  have k: "contribution ?s = five_gifts"
    by (simp add: store_of_def)
  have times: "\<forall>it \<in> set (contribution ?s). get (kd_created_at it) \<noteq> None"
    unfolding k by (simp add: five_gifts_def gift_def)
  have neg: "(- 2 :: int) < 0" by simp
  have five: "length (contribution ?s) = 5"
    unfolding k by (simp add: five_gifts_def)
  note t = limit_zero_and_negative [OF reach, of example_email "- 2"]
  from t times have zero: "list_contributions example_email (Some ?h) 0 = Inr []"
    by blast
  from t five_gifts_well_formed [of "[]"] neg obtain every where
    1: "list_contributions example_email (Some ?h) (int (length (contribution ?s))) = Inr every"
    and 2: "length every = length (contribution ?s)"
    and 3: "list_contributions example_email (Some ?h) (- 2) = Inr (take (length every - nat (- (- 2))) every)"
    by blast
  have 4: "list_contributions example_email (Some ?h) 5 = Inr every"
    using 1 unfolding five by simp
  have 5: "list_contributions example_email (Some ?h) (- 2) = Inr (take 3 every)"
    using 3 unfolding 2 five by simp
  from 4 5 have "\<exists>every.
      list_contributions example_email (Some ?h) 5 = Inr every \<and>
      list_contributions example_email (Some ?h) (- 2) = Inr (take 3 every)"
    by blast
  with zero show ?thesis
    unfolding db_with_def [symmetric]
    using five_gifts_listing(2) [of "[]"] by blast
qed

subsection \<open>Diagnostics\<close>

text \<open>
  C8. \<^verbatim>\<open>test_database\<close> always returns its status object, whatever the environment
  and the handle: with no handle, with a handle whose \<^verbatim>\<open>name\<close> cannot be read, with
  an unreachable server and with a reachable one. A failure is reported in the
  \<^verbatim>\<open>database\<close> field as text (the first 50 characters of the message), and
  \<^verbatim>\<open>collections\<close> never has more than 10 entries: none unless the listing went
  through, the first ten names otherwise.
\<close>

theorem diagnostics_never_fail:
  "\<exists>r. test_database url_set d = Inr r \<and>
        length (collections r) \<le> 10 \<and>
        (d = None \<longrightarrow> database r = NotInitialized \<and> collections r = []) \<and>
        (\<forall>h msg. d = Some h \<and> database_name_of (name_of h) = Inl msg \<longrightarrow>
           database r = ErrorStatus (take 50 msg) \<and> collections r = []) \<and>
        (\<forall>h n msg. d = Some h \<and> database_name_of (name_of h) = Inr n \<and>
             server_of h = Unreachable msg \<longrightarrow>
           database r = ConnectedButError (take 50 msg) \<and> collections r = []) \<and>
        (\<forall>h n s. d = Some h \<and> database_name_of (name_of h) = Inr n \<and>
             server_of h = Reachable s \<longrightarrow>
           database r = ConnectedAndWorking \<and> collections r = take 10 (collection_names s))"
proof (cases d)
  case None
  then show ?thesis
    by (simp add: test_database_def)
next
  case (Some h)
  show ?thesis
  proof (cases "database_name_of (name_of h)")
    case (Inl msg)
    with Some show ?thesis
      by (simp add: test_database_def)
  next
    case (Inr n)
    show ?thesis
    proof (cases "server_of h")
      case (Unreachable msg)
      with Some Inr show ?thesis
        by (simp add: test_database_def list_collection_names_def)
    next
      case (Reachable s)
      with Some Inr show ?thesis
        by (simp add: test_database_def list_collection_names_def)
    qed
  qed
qed

theorem diagnostics_never_fail_witness:
  "(\<exists>r. test_database False (Some \<lparr>name_of = NoName, server_of = Unreachable ''timeout''\<rparr>) = Inr r \<and>
         database r = ConnectedButError ''timeout'' \<and> collections r = []) \<and>
   (\<exists>r. test_database True None = Inr r \<and> database r = NotInitialized) \<and>
   (\<exists>r. test_database True (db_with (store_of [] [])) = Inr r \<and>
         collections r = [''campaign'', ''contribution''])"
proof -
  let ?h = "\<lparr>name_of = NoName, server_of = Unreachable ''timeout''\<rparr>"
  let ?k = "\<lparr>name_of = Name ''crowd'', server_of = Reachable (store_of [] [])\<rparr>"
  have h: "database_name_of (name_of ?h) = Inr ConnectedMark" "server_of ?h = Unreachable ''timeout''"
    by simp_all
  have k: "database_name_of (name_of ?k) = Inr (DatabaseName ''crowd'')"
    "server_of ?k = Reachable (store_of [] [])"
    by simp_all
  have names: "take 10 (collection_names (store_of [] [])) = [''campaign'', ''contribution'']"
    by (simp add: store_of_def)
  from diagnostics_never_fail [of False "Some ?h"] h
  have 1: "\<exists>r. test_database False (Some ?h) = Inr r \<and>
         database r = ConnectedButError (take 50 ''timeout'') \<and> collections r = []"
    by blast
  from diagnostics_never_fail [of True None]
  have 2: "\<exists>r. test_database True None = Inr r \<and> database r = NotInitialized"
    by blast
  from diagnostics_never_fail [of True "Some ?k"] k
  have 3: "\<exists>r. test_database True (Some ?k) = Inr r \<and>
         collections r = take 10 (collection_names (store_of [] []))"
    by blast
  from 1 have 1: "\<exists>r. test_database False (Some ?h) = Inr r \<and>
         database r = ConnectedButError ''timeout'' \<and> collections r = []"
    by simp
  from 1 2 3 show ?thesis
    unfolding names db_with_def by (intro conjI)
qed

end
